theory Spec2Isabelle
  imports Main "HOL-Library.Sublist"
begin

section \<open>Python values used by the automation module\<close>

text \<open>
  Python strings are modelled as HOL strings. The source is UTF-8; a character outside
  ASCII (the accented letters of the French messages and selectors) is written as its
  UTF-8 bytes. Case mapping (\<open>str.lower\<close>, \<open>str.upper\<close>) is modelled on the ASCII
  letters only.
\<close>

definition lower_char :: "char \<Rightarrow> char" where
  "lower_char c =
     (let n = (of_char c :: nat) in if 65 \<le> n \<and> n \<le> 90 then char_of (n + 32) else c)"

definition upper_char :: "char \<Rightarrow> char" where
  "upper_char c =
     (let n = (of_char c :: nat) in if 97 \<le> n \<and> n \<le> 122 then char_of (n - 32) else c)"

definition lower :: "string \<Rightarrow> string" where
  "lower s = map lower_char s"

definition upper :: "string \<Rightarrow> string" where
  "upper s = map upper_char s"

text \<open>\<open>sub in s\<close> on strings.\<close>

fun starts_with :: "string \<Rightarrow> string \<Rightarrow> bool" where
  "starts_with s [] = True"
| "starts_with [] (p # ps) = False"
| "starts_with (c # cs) (p # ps) = (c = p \<and> starts_with cs ps)"

fun contains :: "string \<Rightarrow> string \<Rightarrow> bool" where
  "contains [] sub = (sub = [])"
| "contains (c # cs) sub = (starts_with (c # cs) sub \<or> contains cs sub)"

text \<open>\<open>str(n)\<close> for an integer.\<close>

fun digits :: "nat \<Rightarrow> string" where
  "digits n =
     (if n < 10 then [char_of (48 + n)] else digits (n div 10) @ [char_of (48 + n mod 10)])"

declare digits.simps [simp del]

definition str_int :: "int \<Rightarrow> string" where
  "str_int i = (if i < 0 then CHR ''-'' # digits (nat (- i)) else digits (nat i))"

text \<open>
  An exception is represented by its text (\<open>str(e)\<close>). Every exception of the model is
  an \<open>Exception\<close>; interpreter-level \<open>BaseException\<close>s (keyboard interrupt, task
  cancellation) are outside the model. A call that may raise returns \<open>exn + 'a\<close>, with
  \<open>Inl\<close> for the exception.
\<close>

type_synonym exn = string

text \<open>
  The value of the size or of the colour of an order. \<open>pd.read_excel\<close> gives the text of
  a cell that holds one and the float \<open>nan\<close> for an empty cell; \<open>PyNone\<close> is the default
  of the parameters of \<open>add_product_to_cart\<close>. \<open>py_bool\<close> is the truth value that an
  \<open>if\<close> tests (\<open>bool(float('nan'))\<close> is True, an empty string and \<open>None\<close> are false),
  \<open>py_format\<close> is the text an f-string gives, and \<open>py_upper\<close>, \<open>py_lower\<close> are the
  methods \<open>.upper()\<close> and \<open>.lower()\<close>, which only a string has: on the other values the
  attribute lookup raises \<open>AttributeError\<close>.
\<close>

datatype pyval = PyNone | PyNaN | PyStr string

fun py_bool :: "pyval \<Rightarrow> bool" where
  "py_bool PyNone = False"
| "py_bool PyNaN = True"
| "py_bool (PyStr s) = (s \<noteq> [])"

fun py_format :: "pyval \<Rightarrow> string" where
  "py_format PyNone = ''None''"
| "py_format PyNaN = ''nan''"
| "py_format (PyStr s) = s"

definition attribute_error :: "string \<Rightarrow> string \<Rightarrow> exn" where
  "attribute_error ty attr =
     [CHR 0x27] @ ty @ [CHR 0x27] @ '' object has no attribute '' @ [CHR 0x27] @ attr @ [CHR 0x27]"

fun py_upper :: "pyval \<Rightarrow> exn + string" where
  "py_upper PyNone = Inl (attribute_error ''NoneType'' ''upper'')"
| "py_upper PyNaN = Inl (attribute_error ''float'' ''upper'')"
| "py_upper (PyStr s) = Inr (upper s)"

fun py_lower :: "pyval \<Rightarrow> exn + string" where
  "py_lower PyNone = Inl (attribute_error ''NoneType'' ''lower'')"
| "py_lower PyNaN = Inl (attribute_error ''float'' ''lower'')"
| "py_lower (PyStr s) = Inr (lower s)"

section \<open>The order store (data\_manager.py)\<close>

text \<open>
  One row of the sheet \<open>Commandes\<close>, with the twelve columns of
  \<open>_create_orders_excel\<close>, as \<open>to_dict('records')\<close> gives it after \<open>pd.read_excel\<close>.
  The cells of size and colour hold a text or are empty, and an empty cell is read as
  \<open>nan\<close>. The field for the column \<open>size\<close> is called \<open>size_tok\<close> and the one for
  \<open>notes\<close> is called \<open>order_notes\<close>, since \<open>size\<close> is a constant of HOL and \<open>notes\<close> a
  keyword of Isabelle.
\<close>

record order_row =
  order_id :: string
  user_phone :: string
  user_name :: string
  product_url :: string
  size_tok :: pyval
  color :: pyval
  quantity :: int
  estimated_price :: int
  status :: string
  created_at :: string
  processed_at :: string
  order_notes :: string

text \<open>
  The orders file holds the rows of the sheet, in order; \<open>None\<close> is a file that
  \<open>pd.read_excel\<close> cannot read (missing or damaged), where the read raises and each
  method returns through its \<open>except\<close> branch.
\<close>

type_synonym orders_file = "order_row list option"

definition get_all_orders :: "string option \<Rightarrow> orders_file \<Rightarrow> order_row list" where
  "get_all_orders st file =
     (case file of
        None \<Rightarrow> []
      | Some df \<Rightarrow>
          (case st of
             None \<Rightarrow> df
           | Some s \<Rightarrow> if s \<noteq> [] then filter (\<lambda>r. status r = s) df else df))"

text \<open>
  \<open>update_order_status\<close>; \<open>now\<close> is the value of \<open>datetime.now().isoformat()\<close> at
  the call. The result is the returned flag and the file after the call.
\<close>

definition update_row :: "string \<Rightarrow> string \<Rightarrow> string \<Rightarrow> order_row \<Rightarrow> order_row" where
  "update_row now st nt r =
     (let r1 = r\<lparr>status := st\<rparr>;
          r2 = r1\<lparr>processed_at := now\<rparr>
      in if nt \<noteq> [] then r2\<lparr>order_notes := nt\<rparr> else r2)"

definition update_order_status ::
  "string \<Rightarrow> string \<Rightarrow> string \<Rightarrow> string \<Rightarrow> orders_file \<Rightarrow> bool \<times> orders_file" where
  "update_order_status now oid st nt file =
     (case file of
        None \<Rightarrow> (False, None)
      | Some df \<Rightarrow>
          if list_ex (\<lambda>r. order_id r = oid) df
          then (True, Some (map (\<lambda>r. if order_id r = oid then update_row now st nt r else r) df))
          else (False, Some df))"

section \<open>The browser page, as shein\_bot.py drives it\<close>

text \<open>
  Playwright is a library outside the repository: the model takes what its calls return as
  a parameter. Every call the bot makes is recorded, in order, in a trace, with whether it
  returned or raised; the browser is a record of functions giving the outcome of a call
  from the trace so far, so that a page may answer differently after each interaction.
  Delays are in milliseconds. An element handle is a number.
\<close>

type_synonym elem = nat

datatype call =
    Goto string
  | Sleep nat
  | WaitForSelector string nat
  | QuerySelectorAll string
  | Click elem
  | Fill elem string
  | TypeText elem string
  | GetAttribute elem string
  | TextContent elem
  | PageUrl
  | UpdateOrderStatus string string string

datatype event = Done call | Raised call

type_synonym trace = "event list"

record browser =
  goto :: "trace \<Rightarrow> string \<Rightarrow> exn + unit"
  wait_for_selector :: "trace \<Rightarrow> string \<Rightarrow> nat \<Rightarrow> exn + elem option"
  query_selector_all :: "trace \<Rightarrow> string \<Rightarrow> exn + elem list"
  click :: "trace \<Rightarrow> elem \<Rightarrow> exn + unit"
  fill :: "trace \<Rightarrow> elem \<Rightarrow> string \<Rightarrow> exn + unit"
  type_text :: "trace \<Rightarrow> elem \<Rightarrow> string \<Rightarrow> exn + unit"
  get_attribute :: "trace \<Rightarrow> elem \<Rightarrow> string \<Rightarrow> exn + string option"
  text_content :: "trace \<Rightarrow> elem \<Rightarrow> exn + string option"
  page_url :: "trace \<Rightarrow> exn + string"

definition event_of :: "exn + 'a \<Rightarrow> call \<Rightarrow> event" where
  "event_of r c = (case r of Inl e \<Rightarrow> Raised c | Inr v \<Rightarrow> Done c)"

definition perform :: "(trace \<Rightarrow> exn + 'a) \<Rightarrow> call \<Rightarrow> trace \<Rightarrow> (exn + 'a) \<times> trace" where
  "perform f c tr = (f tr, tr @ [event_of (f tr) c])"

definition do_goto :: "browser \<Rightarrow> string \<Rightarrow> trace \<Rightarrow> (exn + unit) \<times> trace" where
  "do_goto B u tr = perform (\<lambda>h. goto B h u) (Goto u) tr"

definition do_wait :: "browser \<Rightarrow> string \<Rightarrow> nat \<Rightarrow> trace \<Rightarrow> (exn + elem option) \<times> trace" where
  "do_wait B sel t tr = perform (\<lambda>h. wait_for_selector B h sel t) (WaitForSelector sel t) tr"

definition do_query :: "browser \<Rightarrow> string \<Rightarrow> trace \<Rightarrow> (exn + elem list) \<times> trace" where
  "do_query B sel tr = perform (\<lambda>h. query_selector_all B h sel) (QuerySelectorAll sel) tr"

definition do_click :: "browser \<Rightarrow> elem \<Rightarrow> trace \<Rightarrow> (exn + unit) \<times> trace" where
  "do_click B e tr = perform (\<lambda>h. click B h e) (Click e) tr"

definition do_fill :: "browser \<Rightarrow> elem \<Rightarrow> string \<Rightarrow> trace \<Rightarrow> (exn + unit) \<times> trace" where
  "do_fill B e s tr = perform (\<lambda>h. fill B h e s) (Fill e s) tr"

definition do_type :: "browser \<Rightarrow> elem \<Rightarrow> string \<Rightarrow> trace \<Rightarrow> (exn + unit) \<times> trace" where
  "do_type B e s tr = perform (\<lambda>h. type_text B h e s) (TypeText e s) tr"

definition do_attr :: "browser \<Rightarrow> elem \<Rightarrow> string \<Rightarrow> trace \<Rightarrow> (exn + string option) \<times> trace" where
  "do_attr B e a tr = perform (\<lambda>h. get_attribute B h e a) (GetAttribute e a) tr"

definition do_text :: "browser \<Rightarrow> elem \<Rightarrow> trace \<Rightarrow> (exn + string option) \<times> trace" where
  "do_text B e tr = perform (\<lambda>h. text_content B h e) (TextContent e) tr"

definition do_url :: "browser \<Rightarrow> trace \<Rightarrow> (exn + string) \<times> trace" where
  "do_url B tr = perform (page_url B) PageUrl tr"

definition do_sleep :: "nat \<Rightarrow> trace \<Rightarrow> trace" where
  "do_sleep ms tr = tr @ [Done (Sleep ms)]"

text \<open>
  \<open>try: element = await ...wait_for_selector(...); if element: ...  except: continue\<close>:
  the body of the \<open>if\<close> runs on a handle; a raise (the timeout) and \<open>None\<close> both go on
  to the next candidate.
\<close>

definition handle_of :: "exn + elem option \<Rightarrow> elem option" where
  "handle_of r = (case r of Inl e \<Rightarrow> None | Inr h \<Rightarrow> h)"

text \<open>Truth value of an optional string, and \<open>x or ''\<close>.\<close>

definition truthy :: "string option \<Rightarrow> bool" where
  "truthy x = (case x of None \<Rightarrow> False | Some s \<Rightarrow> s \<noteq> [])"

definition or_empty :: "string option \<Rightarrow> string" where
  "or_empty x = (case x of None \<Rightarrow> [] | Some s \<Rightarrow> s)"

subsection \<open>Page validity and confirmation: chains that only look for an element\<close>

text \<open>
  The loops of \<open>_is_valid_product_page\<close> and \<open>_confirm_cart_addition\<close> have the same
  body: wait for the candidate, return True on a handle, go on otherwise. The flag says
  whether the loop returned True.
\<close>

fun first_present :: "browser \<Rightarrow> nat \<Rightarrow> string list \<Rightarrow> trace \<Rightarrow> bool \<times> trace" where
  "first_present B t [] tr = (False, tr)"
| "first_present B t (sel # sels) tr =
     (let (r, tr1) = do_wait B sel t tr in
      case handle_of r of
        Some e \<Rightarrow> (True, tr1)
      | None \<Rightarrow> first_present B t sels tr1)"

definition product_indicators :: "string list" where
  \<open>product_indicators =
     [''[data-testid="product-title"]'',
      ''.product-intro__head-name'',
      ''.goods-title'',
      ''h1[class*="product"]'',
      ''.product-name'']\<close>

definition is_valid_product_page :: "browser \<Rightarrow> trace \<Rightarrow> bool \<times> trace" where
  "is_valid_product_page B tr =
     (let (found, tr1) = first_present B 5000 product_indicators tr in
      if found then (True, tr1)
      else
        (let (u, tr2) = do_url B tr1 in
         case u of
           Inl e \<Rightarrow> (False, tr2)
         | Inr current_url \<Rightarrow>
             if contains current_url ''/item'' \<or> contains current_url ''/product''
             then (True, tr2) else (False, tr2)))"

definition success_indicators :: "string list" where
  \<open>success_indicators =
     [''text=Ajout'' @ [CHR 0xC3, CHR 0xA9] @ '' au panier'',
      ''text=Added to cart'',
      ''text=Produit ajout'' @ [CHR 0xC3, CHR 0xA9],
      ''[data-testid="cart-success"]'',
      ''.success-message'',
      ''[class*="success"]'']\<close>

definition modal_selectors :: "string list" where
  \<open>modal_selectors =
     [''[role="dialog"]'',
      ''.modal'',
      ''.popup'',
      ''[class*="overlay"]'']\<close>

definition confirm_cart_addition :: "browser \<Rightarrow> trace \<Rightarrow> bool \<times> trace" where
  "confirm_cart_addition B tr =
     (let (found, tr1) = first_present B 5000 success_indicators tr in
      if found then (True, tr1)
      else
        (let (modal, tr2) = first_present B 3000 modal_selectors tr1 in
         if modal then (True, tr2)
         else (True, do_sleep 3000 tr2)))"

subsection \<open>Size\<close>

definition size_selectors :: "string \<Rightarrow> string list" where
  \<open>size_selectors target_size =
     [''[data-testid="size-'' @ target_size @ ''"]'',
      ''button[title="'' @ target_size @ ''"]'',
      ''span:has-text("'' @ target_size @ ''"):not([class*="disabled"])'',
      ''.size-item:has-text("'' @ target_size @ ''"):not(.disabled)'',
      ''[class*="size"]:has-text("'' @ target_size @ ''"):not([class*="disabled"])'',
      ''button:has-text("'' @ target_size @ ''"):not([disabled])'']\<close>

definition all_size_elements_selector :: string where
  \<open>all_size_elements_selector = ''[class*="size"], [data-testid*="size"], button, span''\<close>

fun size_selector_loop :: "browser \<Rightarrow> string list \<Rightarrow> trace \<Rightarrow> bool \<times> trace" where
  "size_selector_loop B [] tr = (False, tr)"
| "size_selector_loop B (sel # sels) tr =
     (let (r, tr1) = do_wait B sel 3000 tr in
      case handle_of r of
        None \<Rightarrow> size_selector_loop B sels tr1
      | Some e \<Rightarrow>
          (let (c, tr2) = do_click B e tr1 in
           case c of
             Inl x \<Rightarrow> size_selector_loop B sels tr2
           | Inr u \<Rightarrow> (True, do_sleep 1000 tr2)))"

text \<open>
  The scan of \<open>all_size_elements\<close>. In \<open>text_content and target_size.upper() in
  text_content.upper()\<close> the method of the target is looked up only when the text is not
  empty; when it raises, the bare \<open>except\<close> of the loop body goes on to the next element.
\<close>

fun size_element_loop :: "browser \<Rightarrow> pyval \<Rightarrow> elem list \<Rightarrow> trace \<Rightarrow> bool \<times> trace" where
  "size_element_loop B target_size [] tr = (False, tr)"
| "size_element_loop B target_size (e # es) tr =
     (let (t, tr1) = do_text B e tr in
      case t of
        Inl x \<Rightarrow> size_element_loop B target_size es tr1
      | Inr txt \<Rightarrow>
          if truthy txt
          then
            (case py_upper target_size of
               Inl x \<Rightarrow> size_element_loop B target_size es tr1
             | Inr wanted \<Rightarrow>
                 if contains (upper (or_empty txt)) wanted
                 then
                   (let (d, tr2) = do_attr B e ''disabled'' tr1 in
                    case d of
                      Inl x \<Rightarrow> size_element_loop B target_size es tr2
                    | Inr is_disabled \<Rightarrow>
                        (let (k, tr3) = do_attr B e ''class'' tr2 in
                         case k of
                           Inl x \<Rightarrow> size_element_loop B target_size es tr3
                         | Inr cls \<Rightarrow>
                             if \<not> truthy is_disabled
                                \<and> \<not> contains (lower (or_empty cls)) ''disabled''
                             then
                               (let (c, tr4) = do_click B e tr3 in
                                case c of
                                  Inl x \<Rightarrow> size_element_loop B target_size es tr4
                                | Inr u \<Rightarrow> (True, do_sleep 1000 tr4))
                             else size_element_loop B target_size es tr3))
                 else size_element_loop B target_size es tr1)
          else size_element_loop B target_size es tr1)"

definition select_size :: "browser \<Rightarrow> pyval \<Rightarrow> trace \<Rightarrow> bool \<times> trace" where
  "select_size B target_size tr =
     (let (found, tr1) = size_selector_loop B (size_selectors (py_format target_size)) tr in
      if found then (True, tr1)
      else
        (let (q, tr2) = do_query B all_size_elements_selector tr1 in
         case q of
           Inl x \<Rightarrow> (False, tr2)
         | Inr all_size_elements \<Rightarrow> size_element_loop B target_size all_size_elements tr2))"

subsection \<open>Colour\<close>

definition color_selectors :: "string \<Rightarrow> string list" where
  \<open>color_selectors target_color =
     [''[data-testid="color-'' @ target_color @ ''"]'',
      ''[title*="'' @ target_color @ ''"]'',
      ''[alt*="'' @ target_color @ ''"]'',
      ''.color-item:has-text("'' @ target_color @ ''")'',
      ''[class*="color"], [data-testid*="color"], [class*="swatch"]'']\<close>

text \<open>
  The inner loop over the elements of one selector. The flag is True when the loop clicked
  an element and the function returned True; it is False when the elements are exhausted
  and when a call raised, which both go on to the next selector.
\<close>

fun color_element_loop :: "browser \<Rightarrow> string \<Rightarrow> elem list \<Rightarrow> trace \<Rightarrow> bool \<times> trace" where
  "color_element_loop B target_color_lower [] tr = (False, tr)"
| "color_element_loop B target_color_lower (e # es) tr =
     (let (a, tr1) = do_attr B e ''title'' tr in
      case a of
        Inl x \<Rightarrow> (False, tr1)
      | Inr title \<Rightarrow>
          (let (b, tr2) = do_attr B e ''alt'' tr1 in
           case b of
             Inl x \<Rightarrow> (False, tr2)
           | Inr alt \<Rightarrow>
               (let (t, tr3) = do_text B e tr2 in
                case t of
                  Inl x \<Rightarrow> (False, tr3)
                | Inr txt \<Rightarrow>
                    if contains (lower (or_empty title)) target_color_lower
                       \<or> contains (lower (or_empty alt)) target_color_lower
                       \<or> contains (lower (or_empty txt)) target_color_lower
                    then
                      (let (c, tr4) = do_click B e tr3 in
                       case c of
                         Inl x \<Rightarrow> (False, tr4)
                       | Inr u \<Rightarrow> (True, do_sleep 1000 tr4))
                    else color_element_loop B target_color_lower es tr3)))"

fun color_selector_loop :: "browser \<Rightarrow> string \<Rightarrow> string list \<Rightarrow> trace \<Rightarrow> bool \<times> trace" where
  "color_selector_loop B target_color_lower [] tr = (False, tr)"
| "color_selector_loop B target_color_lower (sel # sels) tr =
     (let (q, tr1) = do_query B sel tr in
      case q of
        Inl x \<Rightarrow> color_selector_loop B target_color_lower sels tr1
      | Inr elements \<Rightarrow>
          (let (clicked, tr2) = color_element_loop B target_color_lower elements tr1 in
           if clicked then (True, tr2)
           else color_selector_loop B target_color_lower sels tr2))"

text \<open>
  \<open>_select_color\<close> starts with \<open>target_color.lower()\<close>, inside its \<open>try\<close>: when that
  raises, the function returns False before any call on the page.
\<close>

definition select_color :: "browser \<Rightarrow> pyval \<Rightarrow> trace \<Rightarrow> bool \<times> trace" where
  "select_color B target_color tr =
     (case py_lower target_color of
        Inl x \<Rightarrow> (False, tr)
      | Inr target_color_lower \<Rightarrow>
          color_selector_loop B target_color_lower (color_selectors (py_format target_color)) tr)"

subsection \<open>Quantity\<close>

definition qty_selectors :: "string list" where
  \<open>qty_selectors =
     [''[data-testid="quantity-input"]'',
      ''input[name="quantity"]'',
      ''input[class*="quantity"]'',
      ''.quantity-input input'',
      ''[class*="qty"] input'']\<close>

definition plus_button_selectors :: "string list" where
  \<open>plus_button_selectors =
     [''[data-testid="quantity-plus"]'',
      ''button[class*="plus"]'',
      ''button:has-text("+")'',
      ''.quantity-plus'']\<close>

fun qty_input_loop :: "browser \<Rightarrow> int \<Rightarrow> string list \<Rightarrow> trace \<Rightarrow> bool \<times> trace" where
  "qty_input_loop B n [] tr = (False, tr)"
| "qty_input_loop B n (sel # sels) tr =
     (let (r, tr1) = do_wait B sel 3000 tr in
      case handle_of r of
        None \<Rightarrow> qty_input_loop B n sels tr1
      | Some e \<Rightarrow>
          (let (c, tr2) = do_click B e tr1 in
           case c of
             Inl x \<Rightarrow> qty_input_loop B n sels tr2
           | Inr u \<Rightarrow>
               (let (f, tr3) = do_fill B e [] tr2 in
                case f of
                  Inl x \<Rightarrow> qty_input_loop B n sels tr3
                | Inr u \<Rightarrow>
                    (let (t, tr4) = do_type B e (str_int n) tr3 in
                     case t of
                       Inl x \<Rightarrow> qty_input_loop B n sels tr4
                     | Inr u \<Rightarrow> (True, do_sleep 1000 tr4)))))"

text \<open>
  \<open>for _ in range(quantity - 1): await plus_button.click(); await asyncio.sleep(0.5)\<close>.
  The flag is False when a click raised.
\<close>

fun click_times :: "browser \<Rightarrow> elem \<Rightarrow> nat \<Rightarrow> trace \<Rightarrow> bool \<times> trace" where
  "click_times B p 0 tr = (True, tr)"
| "click_times B p (Suc k) tr =
     (let (c, tr1) = do_click B p tr in
      case c of
        Inl x \<Rightarrow> (False, tr1)
      | Inr u \<Rightarrow> click_times B p k (do_sleep 500 tr1))"

fun plus_button_loop :: "browser \<Rightarrow> int \<Rightarrow> string list \<Rightarrow> trace \<Rightarrow> bool \<times> trace" where
  "plus_button_loop B n [] tr = (False, tr)"
| "plus_button_loop B n (sel # sels) tr =
     (let (r, tr1) = do_wait B sel 3000 tr in
      case handle_of r of
        None \<Rightarrow> plus_button_loop B n sels tr1
      | Some plus_button \<Rightarrow>
          (let (all_clicked, tr2) = click_times B plus_button (nat (n - 1)) tr1 in
           if all_clicked then (True, tr2)
           else plus_button_loop B n sels tr2))"

definition set_quantity :: "browser \<Rightarrow> int \<Rightarrow> trace \<Rightarrow> bool \<times> trace" where
  "set_quantity B n tr =
     (let (typed, tr1) = qty_input_loop B n qty_selectors tr in
      if typed then (True, tr1)
      else plus_button_loop B n plus_button_selectors tr1)"

subsection \<open>Add to cart\<close>

definition add_to_cart_selectors :: "string list" where
  \<open>add_to_cart_selectors =
     [''[data-testid="add-to-cart"]'',
      ''button:has-text("Ajouter au panier")'',
      ''button:has-text("Add to cart")'',
      ''button:has-text("AJOUTER")'',
      ''.add-to-cart-btn'',
      ''[class*="add-cart"]'',
      ''button[class*="cart"]'']\<close>

fun add_to_cart_loop :: "browser \<Rightarrow> string list \<Rightarrow> trace \<Rightarrow> bool \<times> trace" where
  "add_to_cart_loop B [] tr = (False, tr)"
| "add_to_cart_loop B (sel # sels) tr =
     (let (r, tr1) = do_wait B sel 5000 tr in
      case handle_of r of
        None \<Rightarrow> add_to_cart_loop B sels tr1
      | Some e \<Rightarrow>
          (let (d, tr2) = do_attr B e ''disabled'' tr1 in
           case d of
             Inl x \<Rightarrow> add_to_cart_loop B sels tr2
           | Inr is_disabled \<Rightarrow>
               if \<not> truthy is_disabled
               then
                 (let (c, tr3) = do_click B e tr2 in
                  case c of
                    Inl x \<Rightarrow> add_to_cart_loop B sels tr3
                  | Inr u \<Rightarrow> (True, do_sleep 2000 tr3))
               else add_to_cart_loop B sels tr2))"

definition click_add_to_cart :: "browser \<Rightarrow> trace \<Rightarrow> bool \<times> trace" where
  "click_add_to_cart B tr = add_to_cart_loop B add_to_cart_selectors tr"

subsection \<open>One order\<close>

definition msg_invalid_page :: string where
  "msg_invalid_page = ''Page produit invalide ou produit non trouv'' @ [CHR 0xC3, CHR 0xA9]"

definition msg_size_not_found :: "string \<Rightarrow> string" where
  "msg_size_not_found sz =
     ''Taille '' @ [CHR 0x27] @ sz @ [CHR 0x27] @ '' non trouv'' @ [CHR 0xC3, CHR 0xA9]
       @ ''e ou non s'' @ [CHR 0xC3, CHR 0xA9] @ ''lectionnable''"

definition msg_add_failed :: string where
  "msg_add_failed =
     [CHR 0xC3, CHR 0x89] @ ''chec ajout au panier - bouton non trouv'' @ [CHR 0xC3, CHR 0xA9]
       @ '' ou non cliquable''"

definition msg_added :: string where
  "msg_added =
     ''Produit ajout'' @ [CHR 0xC3, CHR 0xA9] @ '' avec succ'' @ [CHR 0xC3, CHR 0xA8] @ ''s''"

definition msg_not_confirmed :: string where
  "msg_not_confirmed = ''Ajout au panier non confirm'' @ [CHR 0xC3, CHR 0xA9]"

definition msg_error :: "exn \<Rightarrow> string" where
  "msg_error e = ''Erreur ajout produit: '' @ e"

text \<open>
  \<open>add_product_to_cart\<close>. Every helper catches its own exceptions, so the only call of
  the body that raises into the \<open>except\<close> of this function is \<open>page.goto\<close>.
\<close>

definition add_product_to_cart ::
  "browser \<Rightarrow> string \<Rightarrow> pyval \<Rightarrow> pyval \<Rightarrow> int \<Rightarrow> trace
     \<Rightarrow> (bool \<times> string) \<times> trace" where
  "add_product_to_cart B url sz col qty tr =
     (let (g, tr1) = do_goto B url tr in
      case g of
        Inl e \<Rightarrow> ((False, msg_error e), tr1)
      | Inr u \<Rightarrow>
          (let tr2 = do_sleep 2000 tr1;
               (valid, tr3) = is_valid_product_page B tr2
           in if \<not> valid then ((False, msg_invalid_page), tr3)
           else
             (let (size_selected, tr4) =
                    (if py_bool sz then select_size B sz tr3 else (True, tr3))
              in if \<not> size_selected then ((False, msg_size_not_found (py_format sz)), tr4)
              else
                (let tr5 = (if py_bool col then snd (select_color B col tr4) else tr4);
                     tr6 = (if qty > 1 then snd (set_quantity B qty tr5) else tr5);
                     (add_success, tr7) = click_add_to_cart B tr6
                 in if \<not> add_success then ((False, msg_add_failed), tr7)
                 else
                   (let (success_confirmed, tr8) = confirm_cart_addition B tr7
                    in if success_confirmed then ((True, msg_added), tr8)
                       else ((False, msg_not_confirmed), tr8))))))"

subsection \<open>The batch\<close>

record results =
  success :: int
  failed :: int
  total :: int

definition note_completed :: string where
  "note_completed = ''Ajout'' @ [CHR 0xC3, CHR 0xA9] @ '' automatiquement au panier''"

definition note_failed :: "string \<Rightarrow> string" where
  "note_failed message = ''Erreur: '' @ message"

definition rate_limit_delay :: nat where
  "rate_limit_delay = 2000"

text \<open>
  The loop of \<open>process_pending_orders\<close> over the fetched orders. The attempt on one order
  is a parameter, so that the loop is also defined for an attempt that raises (\<open>Inl\<close>),
  which the \<open>except\<close> of the loop body counts as a failure without writing a status.
  \<open>clock\<close> gives \<open>datetime.now().isoformat()\<close> at a point of the run.
\<close>

type_synonym attempt = "order_row \<Rightarrow> trace \<Rightarrow> (exn + bool \<times> string) \<times> trace"

fun process_loop ::
  "attempt \<Rightarrow> (trace \<Rightarrow> string) \<Rightarrow> order_row list \<Rightarrow> results \<Rightarrow> trace \<Rightarrow> orders_file
     \<Rightarrow> results \<times> trace \<times> orders_file" where
  "process_loop A clock [] res tr file = (res, tr, file)"
| "process_loop A clock (order # rest) res tr file =
     (let (r, tr1) = A order tr in
      case r of
        Inl e \<Rightarrow> process_loop A clock rest (res\<lparr>failed := failed res + 1\<rparr>) tr1 file
      | Inr (ok, message) \<Rightarrow>
          if ok then
            (let (u, file1) =
                   update_order_status (clock tr1) (order_id order) ''completed'' note_completed file;
                 tr2 = tr1 @ [Done (UpdateOrderStatus (order_id order) ''completed'' note_completed)];
                 res1 = res\<lparr>success := success res + 1\<rparr>
             in process_loop A clock rest res1 (do_sleep rate_limit_delay tr2) file1)
          else
            (let (u, file1) =
                   update_order_status (clock tr1) (order_id order) ''failed''
                     (note_failed message) file;
                 tr2 = tr1 @ [Done (UpdateOrderStatus (order_id order) ''failed'' (note_failed message))];
                 res1 = res\<lparr>failed := failed res + 1\<rparr>
             in process_loop A clock rest res1 (do_sleep rate_limit_delay tr2) file1))"

definition process_pending_orders_with ::
  "attempt \<Rightarrow> (trace \<Rightarrow> string) \<Rightarrow> trace \<Rightarrow> orders_file \<Rightarrow> results \<times> trace \<times> orders_file" where
  "process_pending_orders_with A clock tr file =
     (let pending_orders = get_all_orders (Some ''pending'') file in
      if pending_orders = [] then (\<lparr>success = 0, failed = 0, total = 0\<rparr>, tr, file)
      else process_loop A clock pending_orders
             \<lparr>success = 0, failed = 0, total = int (length pending_orders)\<rparr> tr file)"

definition attempt_of :: "browser \<Rightarrow> attempt" where
  "attempt_of B order tr =
     (let (r, tr1) = add_product_to_cart B (product_url order) (size_tok order) (color order)
                       (quantity order) tr
      in (Inr r, tr1))"

definition process_pending_orders ::
  "browser \<Rightarrow> (trace \<Rightarrow> string) \<Rightarrow> trace \<Rightarrow> orders_file \<Rightarrow> results \<times> trace \<times> orders_file" where
  "process_pending_orders B clock tr file = process_pending_orders_with (attempt_of B) clock tr file"

section \<open>The session file\<close>

text \<open>
  A cookie as Playwright gives it. The bot never looks inside one. The session file is
  absent, present but not loadable (\<open>open\<close> or \<open>json.load\<close> raises), or holds a list of
  cookies; \<open>json.dump\<close> followed by \<open>json.load\<close> is taken to give the list back.
  The browsing context is a parameter: \<open>cookies_of\<close> is \<open>context.cookies()\<close> and
  \<open>add\<close> is \<open>context.add_cookies\<close>, which returns or raises and leaves a context.
\<close>

record cookie =
  c_name :: string
  c_value :: string
  c_domain :: string
  c_path :: string
  c_expires :: int
  c_httpOnly :: bool
  c_secure :: bool
  c_sameSite :: string

datatype cookies_file = NoFile | Unloadable | Stored "cookie list"

definition load_cookies ::
  "('ctx \<Rightarrow> cookie list \<Rightarrow> (exn + unit) \<times> 'ctx) \<Rightarrow> cookies_file \<Rightarrow> 'ctx \<Rightarrow> 'ctx" where
  "load_cookies add file ctx =
     (case file of
        NoFile \<Rightarrow> ctx
      | Unloadable \<Rightarrow> ctx
      | Stored cookies \<Rightarrow> snd (add ctx cookies))"

text \<open>
  \<open>_save_cookies\<close>: \<open>ctx\<close> is \<open>self.context\<close>, \<open>None\<close> before the browser is
  initialised; \<open>writable\<close> says whether \<open>open(Config.COOKIES_FILE, 'w')\<close> succeeds.
\<close>

definition save_cookies ::
  "('ctx \<Rightarrow> exn + cookie list) \<Rightarrow> bool \<Rightarrow> 'ctx option \<Rightarrow> cookies_file \<Rightarrow> cookies_file" where
  "save_cookies cookies_of writable ctx file =
     (case ctx of
        None \<Rightarrow> file
      | Some c \<Rightarrow>
          (case cookies_of c of
             Inl e \<Rightarrow> file
           | Inr cookies \<Rightarrow> if writable then Stored cookies else file))"

section \<open>Reading a trace\<close>

fun call_of :: "event \<Rightarrow> call" where
  "call_of (Done c) = c"
| "call_of (Raised c) = c"

text \<open>
  \<open>emits P tr tr'\<close>: the trace \<open>tr'\<close> continues \<open>tr\<close>, and every call made after
  \<open>tr\<close> satisfies \<open>P\<close>.
\<close>

definition emits :: "(call \<Rightarrow> bool) \<Rightarrow> trace \<Rightarrow> trace \<Rightarrow> bool" where
  "emits P tr tr' =
     (take (length tr) tr' = tr \<and> list_all (\<lambda>ev. P (call_of ev)) (drop (length tr) tr'))"

text \<open>The calls made after \<open>tr\<close> in a trace that continues it.\<close>

definition calls_since :: "trace \<Rightarrow> trace \<Rightarrow> call list" where
  "calls_since tr tr' = map call_of (drop (length tr) tr')"

text \<open>
  The navigations and the status writes of a trace, in order, whether they returned or
  raised; every other call is a call on the page.
\<close>

fun is_goto :: "call \<Rightarrow> bool" where
  "is_goto (Goto u) = True"
| "is_goto c = False"

fun is_milestone :: "call \<Rightarrow> bool" where
  "is_milestone (Goto u) = True"
| "is_milestone (UpdateOrderStatus oid st nt) = True"
| "is_milestone c = False"

definition milestones :: "trace \<Rightarrow> call list" where
  "milestones tr = filter is_milestone (map call_of tr)"

definition gotos :: "trace \<Rightarrow> call list" where
  "gotos tr = filter is_goto (map call_of tr)"

definition page_call :: "call \<Rightarrow> bool" where
  "page_call c = (\<not> is_milestone c)"

text \<open>Whether the attempt on an order, started after the trace \<open>h\<close>, succeeds.\<close>

definition attempt_succeeds :: "browser \<Rightarrow> order_row \<Rightarrow> trace \<Rightarrow> bool" where
  "attempt_succeeds B ord h =
     fst (fst (add_product_to_cart B (product_url ord) (size_tok ord) (color ord) (quantity ord) h))"

text \<open>A wait for one of the add-to-cart selectors: the first call of \<open>_click_add_to_cart\<close>.\<close>

fun is_cart_wait :: "call \<Rightarrow> bool" where
  "is_cart_wait (WaitForSelector s t) = (s \<in> set add_to_cart_selectors)"
| "is_cart_wait c = False"



fun typed_ok :: "event \<Rightarrow> bool" where
  "typed_ok (Done (TypeText e s)) = True"
| "typed_ok ev = False"

text \<open>
  The selectors waited for in a trace, in order, and the elements on which a click
  returned.
\<close>

fun waited :: "trace \<Rightarrow> string list" where
  "waited [] = []"
| "waited (Done (WaitForSelector s t) # tr) = s # waited tr"
| "waited (Raised (WaitForSelector s t) # tr) = s # waited tr"
| "waited (ev # tr) = waited tr"

fun clicked :: "trace \<Rightarrow> elem list" where
  "clicked [] = []"
| "clicked (Done (Click e) # tr) = e # clicked tr"
| "clicked (ev # tr) = clicked tr"


section \<open>The resolver of the specification\<close>



section \<open>Example data\<close>

text \<open>A pending order for size M, colour Rouge and quantity 2.\<close>

definition ex_row :: "string \<Rightarrow> string \<Rightarrow> order_row" where
  "ex_row oid url =
     \<lparr>order_id = oid, user_phone = ''+221701234567'', user_name = ''Utilisateur_4567'',
      product_url = url, size_tok = PyStr ''M'', color = PyStr ''Rouge'', quantity = 2,
      estimated_price = 0, status = ''pending'', created_at = ''2024-01-01T10:00:00'',
      processed_at = [], order_notes = []\<rparr>"

text \<open>A session cookie.\<close>

definition ex_cookie :: cookie where
  "ex_cookie =
     \<lparr>c_name = ''sessionid'', c_value = ''abc123'', c_domain = ''.shein.com'', c_path = ''/'',
      c_expires = 1767225600, c_httpOnly = True, c_secure = True, c_sameSite = ''Lax''\<rparr>"

text \<open>
  An attempt that succeeds on order A1, fails on order A2 and raises on any other order,
  without touching the page.
\<close>

definition ex_attempt :: attempt where
  "ex_attempt order tr =
     (if order_id order = ''A1'' then (Inr (True, ''ok''), tr)
      else if order_id order = ''A2'' then (Inr (False, ''no''), tr)
      else (Inl ''boom'', tr))"

text \<open>
  A page that does not change: the selectors of \<open>present\<close> match element 1, which is
  enabled and takes clicks and typing; every other wait times out.
\<close>

definition static_page :: "string list \<Rightarrow> browser" where
  "static_page present =
     \<lparr>goto = (\<lambda>h u. Inr ()),
      wait_for_selector = (\<lambda>h s t. if s \<in> set present then Inr (Some 1) else Inl ''Timeout''),
      query_selector_all = (\<lambda>h s. Inr []),
      click = (\<lambda>h e. Inr ()),
      fill = (\<lambda>h e s. Inr ()),
      type_text = (\<lambda>h e s. Inr ()),
      get_attribute = (\<lambda>h e a. Inr None),
      text_content = (\<lambda>h e. Inr None),
      page_url = (\<lambda>h. Inr ''https://www.shein.com/fr/item12345'')\<rparr>"

text \<open>A browser whose process has died: every call raises.\<close>

definition crashed_browser :: browser where
  "crashed_browser =
     \<lparr>goto = (\<lambda>h u. Inl ''Target closed''),
      wait_for_selector = (\<lambda>h s t. Inl ''Target closed''),
      query_selector_all = (\<lambda>h s. Inl ''Target closed''),
      click = (\<lambda>h e. Inl ''Target closed''),
      fill = (\<lambda>h e s. Inl ''Target closed''),
      type_text = (\<lambda>h e s. Inl ''Target closed''),
      get_attribute = (\<lambda>h e a. Inl ''Target closed''),
      text_content = (\<lambda>h e. Inl ''Target closed''),
      page_url = (\<lambda>h. Inl ''Target closed'')\<rparr>"

text \<open>
  A product page with a size control for M, a quantity input, a working add-to-cart
  button and a success message; it has no colour swatch.
\<close>

definition shop_page :: browser where
  \<open>shop_page =
     static_page [''[data-testid="product-title"]'', ''[data-testid="size-M"]'',
                  ''[data-testid="quantity-input"]'', ''[data-testid="add-to-cart"]'',
                  ''[data-testid="cart-success"]'']\<close>

text \<open>An order for a size that \<open>shop_page\<close> does not offer.\<close>

definition ex_row_xxl :: "string \<Rightarrow> string \<Rightarrow> order_row" where
  "ex_row_xxl oid url = (ex_row oid url)\<lparr>size_tok := PyStr ''XXL''\<rparr>"






text \<open>
  An order whose size cell is empty: \<open>pd.read_excel\<close> gives \<open>nan\<close> for it.
\<close>

definition ex_row_nosize :: "string \<Rightarrow> string \<Rightarrow> order_row" where
  "ex_row_nosize oid url = (ex_row oid url)\<lparr>size_tok := PyNaN\<rparr>"

text \<open>
  A product page with a working add-to-cart button and no control that one of the size
  selectors matches; the scan of the size elements finds element 2, whose text is M.
\<close>

definition labelled_page :: browser where
  \<open>labelled_page =
     (static_page [''[data-testid="product-title"]'', ''[data-testid="add-to-cart"]''])
       \<lparr>query_selector_all := (\<lambda>h s. Inr [2]), text_content := (\<lambda>h e. Inr (Some ''M''))\<rparr>\<close>

section \<open>Properties of the order store\<close>

lemma update_row_fields:
  "update_row now st nt r =
     r\<lparr>status := st, processed_at := now, order_notes := (if nt = [] then order_notes r else nt)\<rparr>"
  by (simp add: update_row_def)

text \<open>
  C10: \<open>update_order_status\<close> changes only the rows whose order id is the given one, and
  in those rows only the columns \<open>status\<close> and \<open>processed_at\<close>, and \<open>notes\<close> when the
  given note is not empty; when no row matches it returns False and the file is as it was.
\<close>

theorem update_order_status_frame:
  assumes "update_order_status now oid st nt (Some df) = (ok, file')"
  shows "\<exists>df'. file' = Some df' \<and> length df' = length df
           \<and> ok = (oid \<in> order_id ` set df)
           \<and> (\<forall>i < length df.
                 (order_id (df ! i) \<noteq> oid \<longrightarrow> df' ! i = df ! i)
               \<and> (order_id (df ! i) = oid \<longrightarrow>
                    df' ! i = (df ! i)\<lparr>status := st, processed_at := now,
                                 order_notes := (if nt = [] then order_notes (df ! i) else nt)\<rparr>))
           \<and> (oid \<notin> order_id ` set df \<longrightarrow> \<not> ok \<and> file' = Some df)"
proof (cases "list_ex (\<lambda>r. order_id r = oid) df")
  case True
  then have mem: "oid \<in> order_id ` set df"
    by (auto simp: list_ex_iff)
  from True assms have ok: "ok"
    and f: "file' = Some (map (\<lambda>r. if order_id r = oid then update_row now st nt r else r) df)"
    by (simp_all add: update_order_status_def)
  show ?thesis
    using ok f mem by (simp add: update_row_fields)
next
  case False
  then have nmem: "oid \<notin> order_id ` set df"
    by (auto simp: list_ex_iff)
  from False assms have "\<not> ok" and "file' = Some df"
    by (simp_all add: update_order_status_def)
  then show ?thesis
    using nmem by auto
qed

theorem update_order_status_frame_witness:
  "update_order_status ''T'' ''A2'' ''failed'' [] (Some [ex_row ''A1'' ''u1'', ex_row ''A2'' ''u2''])
     = (True, Some [ex_row ''A1'' ''u1'',
                    (ex_row ''A2'' ''u2'')\<lparr>status := ''failed'', processed_at := ''T''\<rparr>])
   \<and> update_order_status ''T'' ''A3'' ''failed'' ''n'' (Some [ex_row ''A1'' ''u1''])
     = (False, Some [ex_row ''A1'' ''u1''])"
proof -
  have h1: "update_order_status ''T'' ''A2'' ''failed'' [] (Some [ex_row ''A1'' ''u1'', ex_row ''A2'' ''u2''])
     = (True, Some [ex_row ''A1'' ''u1'',
                    (ex_row ''A2'' ''u2'')\<lparr>status := ''failed'', processed_at := ''T''\<rparr>])"
    by (simp add: update_order_status_def update_row_def ex_row_def)
  have h2: "update_order_status ''T'' ''A3'' ''failed'' ''n'' (Some [ex_row ''A1'' ''u1''])
     = (False, Some [ex_row ''A1'' ''u1''])"
    by (simp add: update_order_status_def update_row_def ex_row_def)
  show ?thesis
    using update_order_status_frame [OF h1] update_order_status_frame [OF h2] h1 h2 by simp
qed

section \<open>Traces only grow\<close>

lemma emits_iff: "emits P tr tr' \<longleftrightarrow> (\<exists>ext. tr' = tr @ ext \<and> (\<forall>ev \<in> set ext. P (call_of ev)))"
proof
  assume "emits P tr tr'"
  then have "tr' = tr @ drop (length tr) tr'" and "\<forall>ev \<in> set (drop (length tr) tr'). P (call_of ev)"
    by (auto simp: emits_def list_all_iff) (metis append_take_drop_id)
  then show "\<exists>ext. tr' = tr @ ext \<and> (\<forall>ev \<in> set ext. P (call_of ev))" by blast
next
  assume "\<exists>ext. tr' = tr @ ext \<and> (\<forall>ev \<in> set ext. P (call_of ev))"
  then show "emits P tr tr'" by (auto simp: emits_def list_all_iff)
qed

lemma emits_refl: "emits P tr tr"
  by (simp add: emits_def)


lemma emits_mono: "emits P a b \<Longrightarrow> (\<And>c. P c \<Longrightarrow> Q c) \<Longrightarrow> emits Q a b"
  by (auto simp: emits_iff)

lemma emits_append:
  "emits P tr0 tr \<Longrightarrow> emits P tr0 (tr @ ext) = (\<forall>ev \<in> set ext. P (call_of ev))"
  by (auto simp: emits_iff)

lemma call_of_event_of [simp]: "call_of (event_of r c) = c"
  by (simp add: event_of_def split: sum.splits)

lemma event_of_simps [simp]:
  "event_of (Inl e) c = Raised c"
  "event_of (Inr v) c = Done c"
  by (simp_all add: event_of_def)

lemma perform_simps:
  "fst (perform f c tr) = f tr"
  "snd (perform f c tr) = tr @ [event_of (f tr) c]"
  by (simp_all add: perform_def)

lemmas do_defs = do_goto_def do_wait_def do_query_def do_click_def do_fill_def do_type_def
  do_attr_def do_text_def do_url_def do_sleep_def

lemma first_present_acc:
  assumes "\<And>s. s \<in> set sels \<Longrightarrow> P (WaitForSelector s t)"
  shows "emits P tr0 tr \<Longrightarrow> emits P tr0 (snd (first_present B t sels tr))"
  using assms
proof (induction sels arbitrary: tr)
  case Nil
  then show ?case by simp
next
  case (Cons sel sels)
  then show ?case
    by (auto simp: do_defs perform_simps split_beta emits_append split: option.splits)
qed

lemma is_valid_product_page_acc:
  assumes "\<And>s. s \<in> set product_indicators \<Longrightarrow> P (WaitForSelector s 5000)" "P PageUrl"
    and "emits P tr0 tr"
  shows "emits P tr0 (snd (is_valid_product_page B tr))"
proof -
  have 1: "emits P tr0 (snd (first_present B 5000 product_indicators tr))"
    using assms by (intro first_present_acc) auto
  show ?thesis
    using 1 assms(2)
    by (auto simp: is_valid_product_page_def do_defs perform_simps split_beta emits_append
          split: sum.splits)
qed

lemma confirm_cart_addition_acc:
  assumes "\<And>s. s \<in> set success_indicators \<Longrightarrow> P (WaitForSelector s 5000)"
    and "\<And>s. s \<in> set modal_selectors \<Longrightarrow> P (WaitForSelector s 3000)"
    and "P (Sleep 3000)" and "emits P tr0 tr"
  shows "emits P tr0 (snd (confirm_cart_addition B tr))"
proof -
  have 1: "emits P tr0 (snd (first_present B 5000 success_indicators tr))"
    using assms by (intro first_present_acc) auto
  have 2: "emits P tr0 (snd (first_present B 3000 modal_selectors
                               (snd (first_present B 5000 success_indicators tr))))"
    using assms 1 by (intro first_present_acc) auto
  show ?thesis
    using 1 2 assms(3)
    by (auto simp: confirm_cart_addition_def do_defs split_beta emits_append)
qed

lemma size_selector_loop_acc:
  assumes "\<And>s. s \<in> set sels \<Longrightarrow> P (WaitForSelector s 3000)" "\<And>e. P (Click e)" "P (Sleep 1000)"
  shows "emits P tr0 tr \<Longrightarrow> emits P tr0 (snd (size_selector_loop B sels tr))"
  using assms(1)
proof (induction sels arbitrary: tr)
  case Nil
  then show ?case by simp
next
  case (Cons sel sels)
  then show ?case
    using assms(2,3)
    by (auto simp: do_defs perform_simps split_beta Let_def emits_append
          split: option.splits sum.splits)
qed

lemma size_element_loop_acc:
  assumes "\<And>e. P (TextContent e)" "\<And>e a. P (GetAttribute e a)" "\<And>e. P (Click e)" "P (Sleep 1000)"
  shows "emits P tr0 tr \<Longrightarrow> emits P tr0 (snd (size_element_loop B target es tr))"
proof (induction es arbitrary: tr)
  case Nil
  then show ?case by simp
next
  case (Cons e es)
  show ?case
    using Cons.prems assms
    by (auto simp: do_defs perform_simps split_beta Let_def emits_append
          split: option.splits sum.splits intro!: Cons.IH)
qed

lemma select_size_acc:
  assumes "\<And>s. s \<in> set (size_selectors (py_format target)) \<Longrightarrow> P (WaitForSelector s 3000)"
    and "\<And>s. P (QuerySelectorAll s)"
    and "\<And>e. P (TextContent e)" "\<And>e a. P (GetAttribute e a)" "\<And>e. P (Click e)" "P (Sleep 1000)"
    and "emits P tr0 tr"
  shows "emits P tr0 (snd (select_size B target tr))"
proof -
  have 1: "emits P tr0 (snd (size_selector_loop B (size_selectors (py_format target)) tr))"
    using assms by (intro size_selector_loop_acc) auto
  show ?thesis
    using 1 assms(2-6)
    by (auto simp: select_size_def do_defs perform_simps split_beta emits_append
          split: sum.splits intro!: size_element_loop_acc)
qed

lemma color_element_loop_acc:
  assumes "\<And>e. P (TextContent e)" "\<And>e a. P (GetAttribute e a)" "\<And>e. P (Click e)" "P (Sleep 1000)"
  shows "emits P tr0 tr \<Longrightarrow> emits P tr0 (snd (color_element_loop B tcl es tr))"
proof (induction es arbitrary: tr)
  case Nil
  then show ?case by simp
next
  case (Cons e es)
  show ?case
    using Cons.prems assms
    by (simp add: do_defs perform_simps split_beta Let_def emits_append Cons.IH
          split: sum.splits)
qed

lemma color_selector_loop_acc:
  assumes "\<And>s. P (QuerySelectorAll s)"
    and "\<And>e. P (TextContent e)" "\<And>e a. P (GetAttribute e a)" "\<And>e. P (Click e)" "P (Sleep 1000)"
  shows "emits P tr0 tr \<Longrightarrow> emits P tr0 (snd (color_selector_loop B tcl sels tr))"
proof (induction sels arbitrary: tr)
  case Nil
  then show ?case by simp
next
  case (Cons sel sels)
  show ?case
    using Cons.prems assms
    by (auto simp: do_defs perform_simps split_beta Let_def emits_append
          split: option.splits sum.splits intro!: Cons.IH color_element_loop_acc)
qed

lemma select_color_acc:
  assumes "\<And>s. P (QuerySelectorAll s)"
    and "\<And>e. P (TextContent e)" "\<And>e a. P (GetAttribute e a)" "\<And>e. P (Click e)" "P (Sleep 1000)"
    and "emits P tr0 tr"
  shows "emits P tr0 (snd (select_color B target tr))"
proof (cases "py_lower target")
  case (Inl x)
  then show ?thesis
    using assms(6) by (simp add: select_color_def)
next
  case (Inr tcl)
  have "emits P tr0 (snd (color_selector_loop B tcl (color_selectors (py_format target)) tr))"
    using assms by (intro color_selector_loop_acc) auto
  then show ?thesis
    using Inr by (simp add: select_color_def)
qed

lemma qty_input_loop_acc:
  assumes "\<And>s. s \<in> set sels \<Longrightarrow> P (WaitForSelector s 3000)" "\<And>e. P (Click e)"
    "\<And>e s. P (Fill e s)" "\<And>e s. P (TypeText e s)" "P (Sleep 1000)"
  shows "emits P tr0 tr \<Longrightarrow> emits P tr0 (snd (qty_input_loop B n sels tr))"
  using assms(1)
proof (induction sels arbitrary: tr)
  case Nil
  then show ?case by simp
next
  case (Cons sel sels)
  then show ?case
    using assms(2-5)
    by (auto simp: do_defs perform_simps split_beta Let_def emits_append
          split: option.splits sum.splits)
qed

lemma click_times_acc:
  assumes "\<And>e. P (Click e)" "P (Sleep 500)"
  shows "emits P tr0 tr \<Longrightarrow> emits P tr0 (snd (click_times B p k tr))"
proof (induction k arbitrary: tr)
  case 0
  then show ?case by simp
next
  case (Suc k)
  show ?case
    using Suc.prems assms
    by (auto simp: do_defs perform_simps split_beta Let_def emits_append
          split: sum.splits intro!: Suc.IH)
qed

lemma plus_button_loop_acc:
  assumes "\<And>s. s \<in> set sels \<Longrightarrow> P (WaitForSelector s 3000)" "\<And>e. P (Click e)" "P (Sleep 500)"
  shows "emits P tr0 tr \<Longrightarrow> emits P tr0 (snd (plus_button_loop B n sels tr))"
  using assms(1)
proof (induction sels arbitrary: tr)
  case Nil
  then show ?case by simp
next
  case (Cons sel sels)
  have w: "emits P tr0 (snd (do_wait B sel 3000 tr))"
    using Cons.prems by (simp add: do_defs perform_simps emits_append)
  have c: "emits P tr0 (snd (click_times B p (nat (n - 1)) (snd (do_wait B sel 3000 tr))))" for p
    using w assms(2,3) by (intro click_times_acc) auto
  show ?case
    using Cons.prems(2) w c
    by (auto simp: split_beta Let_def split: option.splits intro!: Cons.IH)
qed

lemma set_quantity_acc:
  assumes "\<And>s. s \<in> set qty_selectors \<Longrightarrow> P (WaitForSelector s 3000)"
    and "\<And>s. s \<in> set plus_button_selectors \<Longrightarrow> P (WaitForSelector s 3000)"
    and "\<And>e. P (Click e)" "\<And>e s. P (Fill e s)" "\<And>e s. P (TypeText e s)"
    and "P (Sleep 1000)" "P (Sleep 500)" and "emits P tr0 tr"
  shows "emits P tr0 (snd (set_quantity B n tr))"
proof -
  have 1: "emits P tr0 (snd (qty_input_loop B n qty_selectors tr))"
    using assms by (intro qty_input_loop_acc) auto
  have 2: "emits P tr0 (snd (plus_button_loop B n plus_button_selectors
                               (snd (qty_input_loop B n qty_selectors tr))))"
    using assms 1 by (intro plus_button_loop_acc) auto
  show ?thesis
    using 1 2 by (simp add: set_quantity_def split_beta)
qed

lemma add_to_cart_loop_acc:
  assumes "\<And>s. s \<in> set sels \<Longrightarrow> P (WaitForSelector s 5000)" "\<And>e a. P (GetAttribute e a)"
    "\<And>e. P (Click e)" "P (Sleep 2000)"
  shows "emits P tr0 tr \<Longrightarrow> emits P tr0 (snd (add_to_cart_loop B sels tr))"
  using assms(1)
proof (induction sels arbitrary: tr)
  case Nil
  then show ?case by simp
next
  case (Cons sel sels)
  then show ?case
    using assms(2-4)
    by (auto simp: do_defs perform_simps split_beta Let_def emits_append
          split: option.splits sum.splits)
qed

section \<open>The counts of a batch\<close>

lemma process_loop_counts:
  "process_loop A clock os res tr fl = (res', tr', fl')
   \<Longrightarrow> success res' + failed res' = success res + failed res + int (length os)
       \<and> total res' = total res"
proof (induction os arbitrary: res tr fl)
  case Nil
  then show ?case by simp
next
  case (Cons order rest)
  obtain r tr1 where a: "A order tr = (r, tr1)" by (cases "A order tr")
  show ?case
  proof (cases r)
    case (Inl e)
    with a Cons.prems have "process_loop A clock rest (res\<lparr>failed := failed res + 1\<rparr>) tr1 fl = (res', tr', fl')"
      by simp
    from Cons.IH [OF this] show ?thesis by simp
  next
    case (Inr p)
    obtain ok message where p: "p = (ok, message)" by (cases p)
    show ?thesis
    proof (cases ok)
      case True
      with a Inr p Cons.prems obtain tr2 fl1 where
        "process_loop A clock rest (res\<lparr>success := success res + 1\<rparr>) tr2 fl1 = (res', tr', fl')"
        by (auto simp: Let_def split: prod.splits)
      from Cons.IH [OF this] show ?thesis by simp
    next
      case False
      with a Inr p Cons.prems obtain tr2 fl1 where
        "process_loop A clock rest (res\<lparr>failed := failed res + 1\<rparr>) tr2 fl1 = (res', tr', fl')"
        by (auto simp: Let_def split: prod.splits)
      from Cons.IH [OF this] show ?thesis by simp
    qed
  qed
qed

text \<open>
  C9: whatever the orders file holds and whatever each attempt does (succeed, fail or
  raise), the counts returned by \<open>process_pending_orders\<close> satisfy
  \<open>success + failed = total\<close>, the total being the number of pending orders fetched; an
  empty backlog and an unreadable file give all-zero counts.
\<close>

theorem process_pending_orders_counts:
  "success (fst (process_pending_orders_with A clock tr fl))
     + failed (fst (process_pending_orders_with A clock tr fl))
     = total (fst (process_pending_orders_with A clock tr fl))
   \<and> total (fst (process_pending_orders_with A clock tr fl))
       = int (length (get_all_orders (Some ''pending'') fl))
   \<and> (get_all_orders (Some ''pending'') fl = [] \<longrightarrow>
        process_pending_orders_with A clock tr fl = (\<lparr>success = 0, failed = 0, total = 0\<rparr>, tr, fl))
   \<and> (fl = None \<longrightarrow>
        process_pending_orders_with A clock tr fl = (\<lparr>success = 0, failed = 0, total = 0\<rparr>, tr, fl))
   \<and> success (fst (process_pending_orders B clock tr fl))
     + failed (fst (process_pending_orders B clock tr fl))
     = total (fst (process_pending_orders B clock tr fl))"
proof -
  have gen: "success (fst (process_pending_orders_with A' clock tr fl))
     + failed (fst (process_pending_orders_with A' clock tr fl))
     = total (fst (process_pending_orders_with A' clock tr fl))
   \<and> total (fst (process_pending_orders_with A' clock tr fl))
       = int (length (get_all_orders (Some ''pending'') fl))" for A'
  proof (cases "get_all_orders (Some ''pending'') fl = []")
    case True
    then show ?thesis by (simp add: process_pending_orders_with_def)
  next
    case False
    obtain res' tr' fl' where run:
      "process_loop A' clock (get_all_orders (Some ''pending'') fl)
         \<lparr>success = 0, failed = 0, total = int (length (get_all_orders (Some ''pending'') fl))\<rparr>
         tr fl = (res', tr', fl')"
      by (metis prod_cases3)
    from process_loop_counts [OF run] False run show ?thesis
      by (simp add: process_pending_orders_with_def)
  qed
  have empty: "get_all_orders (Some ''pending'') fl = [] \<longrightarrow>
        process_pending_orders_with A clock tr fl = (\<lparr>success = 0, failed = 0, total = 0\<rparr>, tr, fl)"
    by (simp add: process_pending_orders_with_def)
  have unread: "fl = None \<longrightarrow>
        process_pending_orders_with A clock tr fl = (\<lparr>success = 0, failed = 0, total = 0\<rparr>, tr, fl)"
    by (simp add: process_pending_orders_with_def get_all_orders_def)
  show ?thesis
    using gen [of A] gen [of "attempt_of B"] empty unread
    by (simp add: process_pending_orders_def)
qed

theorem process_pending_orders_counts_witness:
  "fst (process_pending_orders_with ex_attempt (\<lambda>h. ''T'') []
          (Some [ex_row ''A1'' ''u1'', ex_row ''A2'' ''u2'', ex_row ''A3'' ''u3'']))
     = \<lparr>success = 1, failed = 2, total = 3\<rparr>
   \<and> process_pending_orders_with ex_attempt (\<lambda>h. ''T'') [] (Some [])
     = (\<lparr>success = 0, failed = 0, total = 0\<rparr>, [], Some [])
   \<and> process_pending_orders_with ex_attempt (\<lambda>h. ''T'') [] None
     = (\<lparr>success = 0, failed = 0, total = 0\<rparr>, [], None)"
  using process_pending_orders_counts [of ex_attempt "\<lambda>h. ''T''" "[]" "Some [ex_row ''A1'' ''u1'', ex_row ''A2'' ''u2'', ex_row ''A3'' ''u3'']"]
    process_pending_orders_counts [of ex_attempt "\<lambda>h. ''T''" "[]" "Some []"]
    process_pending_orders_counts [of ex_attempt "\<lambda>h. ''T''" "[]" "None"]
  by (simp add: process_pending_orders_with_def get_all_orders_def ex_attempt_def ex_row_def
        update_order_status_def update_row_def do_sleep_def Let_def)

section \<open>Confirmation of the addition\<close>

lemma first_present_none:
  assumes "\<forall>h. \<forall>s \<in> set sels. handle_of (wait_for_selector B h s t) = None"
  shows "\<not> fst (first_present B t sels tr)
         \<and> (\<exists>ext. snd (first_present B t sels tr) = tr @ ext
                  \<and> map call_of ext = map (\<lambda>s. WaitForSelector s t) sels)"
  using assms
proof (induction sels arbitrary: tr)
  case Nil
  then show ?case by simp
next
  case (Cons sel sels)
  let ?tr1 = "tr @ [event_of (wait_for_selector B tr sel t) (WaitForSelector sel t)]"
  from Cons.prems have none: "handle_of (wait_for_selector B tr sel t) = None"
    and rest: "\<forall>h. \<forall>s \<in> set sels. handle_of (wait_for_selector B h s t) = None"
    by simp_all
  from Cons.IH [OF rest, of ?tr1] obtain ext where
    f: "\<not> fst (first_present B t sels ?tr1)"
    and e: "snd (first_present B t sels ?tr1) = ?tr1 @ ext"
    and m: "map call_of ext = map (\<lambda>s. WaitForSelector s t) sels"
    by blast
  have step: "first_present B t (sel # sels) tr = first_present B t sels ?tr1"
    using none by (simp add: do_wait_def perform_def)
  show ?case
    unfolding step using f e m by simp
qed

lemma first_present_found:
  assumes "s \<in> set sels" and "\<forall>h. handle_of (wait_for_selector B h s t) \<noteq> None"
  shows "fst (first_present B t sels tr)"
  using assms(1)
proof (induction sels arbitrary: tr)
  case Nil
  then show ?case by simp
next
  case (Cons sel sels)
  let ?tr1 = "tr @ [event_of (wait_for_selector B tr sel t) (WaitForSelector sel t)]"
  show ?case
  proof (cases "handle_of (wait_for_selector B tr sel t)")
    case None
    have "s \<noteq> sel"
      using assms(2) [rule_format, of tr] None by auto
    with Cons.prems have "s \<in> set sels" by simp
    from Cons.IH [OF this, of ?tr1] None show ?thesis
      by (simp add: do_wait_def perform_def)
  next
    case (Some e)
    then show ?thesis by (simp add: do_wait_def perform_def)
  qed
qed

lemma calls_since_append [simp]: "calls_since tr (tr @ ext) = map call_of ext"
  by (simp add: calls_since_def)

text \<open>
  C7: \<open>_confirm_cart_addition\<close> never answers False. The success indicators are
  waited for first and a handle there ends the check; otherwise the modal selectors are
  waited for and a handle there ends it; otherwise the check sleeps three seconds and
  answers True all the same.
\<close>

theorem confirm_cart_addition_committed:
  "fst (confirm_cart_addition B tr)
   \<and> (fst (first_present B 5000 success_indicators tr) \<longrightarrow>
        snd (confirm_cart_addition B tr) = snd (first_present B 5000 success_indicators tr))
   \<and> (\<not> fst (first_present B 5000 success_indicators tr)
        \<and> fst (first_present B 3000 modal_selectors
                 (snd (first_present B 5000 success_indicators tr))) \<longrightarrow>
        snd (confirm_cart_addition B tr)
          = snd (first_present B 3000 modal_selectors
                   (snd (first_present B 5000 success_indicators tr))))
   \<and> (\<not> fst (first_present B 5000 success_indicators tr)
        \<and> \<not> fst (first_present B 3000 modal_selectors
                   (snd (first_present B 5000 success_indicators tr))) \<longrightarrow>
        snd (confirm_cart_addition B tr)
          = snd (first_present B 3000 modal_selectors
                   (snd (first_present B 5000 success_indicators tr))) @ [Done (Sleep 3000)])
   \<and> ((\<exists>s \<in> set success_indicators. \<forall>h. handle_of (wait_for_selector B h s 5000) \<noteq> None) \<longrightarrow>
        emits (\<lambda>c. \<exists>s \<in> set success_indicators. c = WaitForSelector s 5000) tr
          (snd (confirm_cart_addition B tr)))
   \<and> ((\<forall>h. \<forall>s \<in> set success_indicators. handle_of (wait_for_selector B h s 5000) = None)
        \<and> (\<exists>s \<in> set modal_selectors. \<forall>h. handle_of (wait_for_selector B h s 3000) \<noteq> None) \<longrightarrow>
        emits (\<lambda>c. (\<exists>s \<in> set success_indicators. c = WaitForSelector s 5000)
                  \<or> (\<exists>s \<in> set modal_selectors. c = WaitForSelector s 3000)) tr
          (snd (confirm_cart_addition B tr)))
   \<and> ((\<forall>h. \<forall>s \<in> set success_indicators. handle_of (wait_for_selector B h s 5000) = None)
        \<and> (\<forall>h. \<forall>s \<in> set modal_selectors. handle_of (wait_for_selector B h s 3000) = None) \<longrightarrow>
        calls_since tr (snd (confirm_cart_addition B tr))
          = map (\<lambda>s. WaitForSelector s 5000) success_indicators
            @ map (\<lambda>s. WaitForSelector s 3000) modal_selectors @ [Sleep 3000])"
proof -
  let ?r1 = "first_present B 5000 success_indicators tr"
  let ?r2 = "first_present B 3000 modal_selectors (snd ?r1)"
  have always: "fst (confirm_cart_addition B tr)"
    by (simp add: confirm_cart_addition_def split_beta)
  have t1: "fst ?r1 \<longrightarrow> snd (confirm_cart_addition B tr) = snd ?r1"
    by (simp add: confirm_cart_addition_def split_beta)
  have t2: "\<not> fst ?r1 \<and> fst ?r2 \<longrightarrow> snd (confirm_cart_addition B tr) = snd ?r2"
    by (simp add: confirm_cart_addition_def split_beta)
  have t3: "\<not> fst ?r1 \<and> \<not> fst ?r2 \<longrightarrow>
              snd (confirm_cart_addition B tr) = snd ?r2 @ [Done (Sleep 3000)]"
    by (simp add: confirm_cart_addition_def split_beta do_sleep_def)
  have e1: "emits (\<lambda>c. \<exists>s \<in> set success_indicators. c = WaitForSelector s 5000) tr (snd ?r1)"
    by (intro first_present_acc emits_refl) blast
  have b1: "(\<exists>s \<in> set success_indicators. \<forall>h. handle_of (wait_for_selector B h s 5000) \<noteq> None) \<longrightarrow>
        emits (\<lambda>c. \<exists>s \<in> set success_indicators. c = WaitForSelector s 5000) tr
          (snd (confirm_cart_addition B tr))"
    using first_present_found [of _ success_indicators B 5000 tr] t1 e1 by auto
  have e2: "emits (\<lambda>c. (\<exists>s \<in> set success_indicators. c = WaitForSelector s 5000)
                  \<or> (\<exists>s \<in> set modal_selectors. c = WaitForSelector s 3000)) tr (snd ?r2)"
    by (intro first_present_acc emits_refl; blast)
  have b2: "(\<forall>h. \<forall>s \<in> set success_indicators. handle_of (wait_for_selector B h s 5000) = None)
        \<and> (\<exists>s \<in> set modal_selectors. \<forall>h. handle_of (wait_for_selector B h s 3000) \<noteq> None) \<longrightarrow>
        emits (\<lambda>c. (\<exists>s \<in> set success_indicators. c = WaitForSelector s 5000)
                  \<or> (\<exists>s \<in> set modal_selectors. c = WaitForSelector s 3000)) tr
          (snd (confirm_cart_addition B tr))"
  proof (intro impI, elim conjE bexE)
    fix s
    assume n: "\<forall>h. \<forall>s \<in> set success_indicators. handle_of (wait_for_selector B h s 5000) = None"
      and s: "s \<in> set modal_selectors" "\<forall>h. handle_of (wait_for_selector B h s 3000) \<noteq> None"
    from first_present_none [OF n, of tr] have "\<not> fst ?r1" by blast
    moreover from first_present_found [OF s] have "fst ?r2" .
    ultimately show "emits (\<lambda>c. (\<exists>s \<in> set success_indicators. c = WaitForSelector s 5000)
                  \<or> (\<exists>s \<in> set modal_selectors. c = WaitForSelector s 3000)) tr
          (snd (confirm_cart_addition B tr))"
      using t2 e2 by simp
  qed
  have b3: "(\<forall>h. \<forall>s \<in> set success_indicators. handle_of (wait_for_selector B h s 5000) = None)
        \<and> (\<forall>h. \<forall>s \<in> set modal_selectors. handle_of (wait_for_selector B h s 3000) = None) \<longrightarrow>
        calls_since tr (snd (confirm_cart_addition B tr))
          = map (\<lambda>s. WaitForSelector s 5000) success_indicators
            @ map (\<lambda>s. WaitForSelector s 3000) modal_selectors @ [Sleep 3000]"
  proof (intro impI, elim conjE)
    assume n1: "\<forall>h. \<forall>s \<in> set success_indicators. handle_of (wait_for_selector B h s 5000) = None"
      and n2: "\<forall>h. \<forall>s \<in> set modal_selectors. handle_of (wait_for_selector B h s 3000) = None"
    from first_present_none [OF n1, of tr] obtain ext1 where
      f1: "\<not> fst ?r1" and x1: "snd ?r1 = tr @ ext1"
      and m1: "map call_of ext1 = map (\<lambda>s. WaitForSelector s 5000) success_indicators"
      by blast
    from first_present_none [OF n2, of "snd ?r1"] obtain ext2 where
      f2: "\<not> fst ?r2" and x2: "snd ?r2 = snd ?r1 @ ext2"
      and m2: "map call_of ext2 = map (\<lambda>s. WaitForSelector s 3000) modal_selectors"
      by blast
    from t3 f1 f2 x1 x2 have "snd (confirm_cart_addition B tr) = tr @ (ext1 @ ext2 @ [Done (Sleep 3000)])"
      by simp
    then show "calls_since tr (snd (confirm_cart_addition B tr))
          = map (\<lambda>s. WaitForSelector s 5000) success_indicators
            @ map (\<lambda>s. WaitForSelector s 3000) modal_selectors @ [Sleep 3000]"
      using m1 m2 by (simp only: calls_since_append) simp
  qed
  show ?thesis
    using always t1 t2 t3 b1 b2 b3 by blast
qed

theorem confirm_cart_addition_committed_witness:
  "confirm_cart_addition (static_page [''text=Added to cart'']) []
     = (True, [Raised (WaitForSelector (''text=Ajout'' @ [CHR 0xC3, CHR 0xA9] @ '' au panier'') 5000),
               Done (WaitForSelector ''text=Added to cart'' 5000)])
   \<and> fst (confirm_cart_addition (static_page [''.modal'']) [])
   \<and> calls_since [] (snd (confirm_cart_addition (static_page []) []))
     = map (\<lambda>s. WaitForSelector s 5000) success_indicators
       @ map (\<lambda>s. WaitForSelector s 3000) modal_selectors @ [Sleep 3000]"
proof -
  have a: "confirm_cart_addition (static_page [''text=Added to cart'']) []
     = (True, [Raised (WaitForSelector (''text=Ajout'' @ [CHR 0xC3, CHR 0xA9] @ '' au panier'') 5000),
               Done (WaitForSelector ''text=Added to cart'' 5000)])"
    by (simp add: confirm_cart_addition_def success_indicators_def static_page_def
          do_wait_def perform_def handle_of_def)
  have n1: "\<forall>h. \<forall>s \<in> set success_indicators.
              handle_of (wait_for_selector (static_page []) h s 5000) = None"
    by (simp add: static_page_def handle_of_def)
  have n2: "\<forall>h. \<forall>s \<in> set modal_selectors.
              handle_of (wait_for_selector (static_page []) h s 3000) = None"
    by (simp add: static_page_def handle_of_def)
  show ?thesis
    using a n1 n2 confirm_cart_addition_committed [of "static_page [''.modal'']" "[]"]
      confirm_cart_addition_committed [of "static_page []" "[]"]
    by blast
qed

section \<open>Saving and loading the session\<close>

text \<open>
  C8: when the context gives its cookies and the session file can be written, saving and
  then loading hands to the new context exactly the list that was saved, whatever the
  session file was before, absent included; loading with no session file leaves the
  context as it is and raises nothing.
\<close>

theorem session_round_trip:
  "(cookies_of ctx = Inr cs \<longrightarrow>
      save_cookies cookies_of True (Some ctx) old = Stored cs
      \<and> load_cookies add (save_cookies cookies_of True (Some ctx) old) ctx0 = snd (add ctx0 cs)
      \<and> load_cookies add (save_cookies cookies_of True (Some ctx) NoFile) ctx0 = snd (add ctx0 cs))
   \<and> load_cookies add NoFile ctx0 = ctx0"
  by (simp add: save_cookies_def load_cookies_def)

theorem session_round_trip_witness:
  "load_cookies (\<lambda>c cs. (Inr (), c @ cs)) (save_cookies Inr True (Some [ex_cookie]) NoFile) []
     = [ex_cookie]
   \<and> load_cookies (\<lambda>c cs. (Inr (), c @ cs)) NoFile [] = ([] :: cookie list)"
  using session_round_trip [of Inr "[ex_cookie]" "[ex_cookie]" NoFile "\<lambda>c cs. (Inr (), c @ cs)" "[]"]
  by (simp add: load_cookies_def save_cookies_def)

section \<open>One order: the calls it makes\<close>

lemma click_add_to_cart_acc:
  assumes "\<And>s. s \<in> set add_to_cart_selectors \<Longrightarrow> P (WaitForSelector s 5000)"
    "\<And>e a. P (GetAttribute e a)" "\<And>e. P (Click e)" "P (Sleep 2000)" "emits P tr0 tr"
  shows "emits P tr0 (snd (click_add_to_cart B tr))"
  unfolding click_add_to_cart_def using assms by (intro add_to_cart_loop_acc) auto

text \<open>After the navigation, an order makes only the calls of its helpers.\<close>

lemma add_product_to_cart_after_goto:
  assumes sl: "P (Sleep 2000)" "P (Sleep 1000)" "P (Sleep 3000)"
    and el: "\<And>e. P (Click e)" "\<And>e a. P (GetAttribute e a)" "\<And>e. P (TextContent e)"
            "\<And>s. P (QuerySelectorAll s)" "P PageUrl"
    and vs: "\<And>s. s \<in> set product_indicators \<Longrightarrow> P (WaitForSelector s 5000)"
    and ss: "\<And>s. py_bool sz \<Longrightarrow> s \<in> set (size_selectors (py_format sz)) \<Longrightarrow> P (WaitForSelector s 3000)"
    and qs: "\<And>s. qty > 1 \<Longrightarrow> s \<in> set qty_selectors \<union> set plus_button_selectors
                     \<Longrightarrow> P (WaitForSelector s 3000)"
            "\<And>e s. qty > 1 \<Longrightarrow> P (Fill e s)" "\<And>e s. qty > 1 \<Longrightarrow> P (TypeText e s)"
            "qty > 1 \<Longrightarrow> P (Sleep 500)"
    and cs: "\<And>s. s \<in> set add_to_cart_selectors \<Longrightarrow> P (WaitForSelector s 5000)"
    and fs: "\<And>s. s \<in> set success_indicators \<Longrightarrow> P (WaitForSelector s 5000)"
            "\<And>s. s \<in> set modal_selectors \<Longrightarrow> P (WaitForSelector s 3000)"
  shows "emits P (tr @ [event_of (goto B tr url) (Goto url)])
           (snd (add_product_to_cart B url sz col qty tr))"
proof -
  define tr1 where "tr1 = tr @ [event_of (goto B tr url) (Goto url)]"
  define tr2 where "tr2 = do_sleep 2000 tr1"
  define tr3 where "tr3 = snd (is_valid_product_page B tr2)"
  define tr4 where "tr4 = (if py_bool sz then snd (select_size B sz tr3) else tr3)"
  define tr5 where "tr5 = (if py_bool col then snd (select_color B col tr4) else tr4)"
  define tr6 where "tr6 = (if qty > 1 then snd (set_quantity B qty tr5) else tr5)"
  define tr7 where "tr7 = snd (click_add_to_cart B tr6)"
  define tr8 where "tr8 = snd (confirm_cart_addition B tr7)"
  have e1: "emits P tr1 tr1" by (rule emits_refl)
  have e2: "emits P tr1 tr2"
    unfolding tr2_def do_sleep_def using e1 sl by (simp add: emits_append)
  have e3: "emits P tr1 tr3"
    unfolding tr3_def using e2 vs el by (intro is_valid_product_page_acc) auto
  have e4: "emits P tr1 tr4"
  proof (cases "py_bool sz")
    case True
    have "emits P tr1 (snd (select_size B sz tr3))"
      using e3 ss [OF True] el sl by (intro select_size_acc) auto
    then show ?thesis by (simp add: tr4_def True)
  next
    case False
    then show ?thesis using e3 by (simp add: tr4_def)
  qed
  have e5: "emits P tr1 tr5"
  proof (cases "py_bool col")
    case True
    have "emits P tr1 (snd (select_color B col tr4))"
      using e4 el sl by (intro select_color_acc) auto
    then show ?thesis by (simp add: tr5_def True)
  next
    case False
    then show ?thesis using e4 by (simp add: tr5_def)
  qed
  have e6: "emits P tr1 tr6"
  proof (cases "qty > 1")
    case True
    have "emits P tr1 (snd (set_quantity B qty tr5))"
      using e5 qs [OF True] el sl by (intro set_quantity_acc) auto
    then show ?thesis by (simp add: tr6_def True)
  next
    case False
    then show ?thesis using e5 by (simp add: tr6_def)
  qed
  have e7: "emits P tr1 tr7"
    unfolding tr7_def using e6 cs el sl by (intro click_add_to_cart_acc) auto
  have e8: "emits P tr1 tr8"
    unfolding tr8_def using e7 fs sl by (intro confirm_cart_addition_acc) auto
  have "snd (add_product_to_cart B url sz col qty tr) \<in> {tr1, tr3, tr4, tr7, tr8}"
    by (simp add: add_product_to_cart_def do_goto_def perform_def split_beta Let_def
          tr1_def tr2_def tr3_def tr4_def tr5_def tr6_def tr7_def tr8_def
        split: sum.splits)
  then show ?thesis
    using e1 e3 e4 e7 e8 unfolding tr1_def by auto
qed

lemma milestones_append [simp]: "milestones (a @ b) = milestones a @ milestones b"
  by (simp add: milestones_def)

lemma gotos_append [simp]: "gotos (a @ b) = gotos a @ gotos b"
  by (simp add: gotos_def)

lemma emits_page_milestones: "emits page_call a b \<Longrightarrow> milestones b = milestones a"
  by (auto simp: emits_iff milestones_def page_call_def filter_empty_conv)

lemma gotos_milestones: "gotos tr = filter is_goto (milestones tr)"
proof -
  have "is_goto c \<and> is_milestone c \<longleftrightarrow> is_goto c" for c
    by (cases c) simp_all
  then show ?thesis
    by (simp add: gotos_def milestones_def conj_commute)
qed

lemma add_product_to_cart_milestones:
  "milestones (snd (add_product_to_cart B url sz col qty tr)) = milestones tr @ [Goto url]"
proof -
  have "emits page_call (tr @ [event_of (goto B tr url) (Goto url)])
          (snd (add_product_to_cart B url sz col qty tr))"
    by (rule add_product_to_cart_after_goto) (simp_all add: page_call_def)
  from emits_page_milestones [OF this] show ?thesis
    by (simp add: milestones_def)
qed

lemma add_product_to_cart_goto_raises:
  "goto B tr url = Inl e \<Longrightarrow>
     add_product_to_cart B url sz col qty tr = ((False, msg_error e), tr @ [Raised (Goto url)])"
  by (simp add: add_product_to_cart_def do_goto_def perform_def)

section \<open>The batch: navigations and status writes\<close>

text \<open>One turn of the loop on the modelled \<open>add_product_to_cart\<close>, which never raises.\<close>

lemma process_loop_step:
  "process_loop (attempt_of B) clock (order # rest) res tr fl =
     (let r = add_product_to_cart B (product_url order) (size_tok order) (color order)
                (quantity order) tr;
          st = (if fst (fst r) then ''completed'' else ''failed'');
          nt = (if fst (fst r) then note_completed else note_failed (snd (fst r)));
          res1 = (if fst (fst r) then res\<lparr>success := success res + 1\<rparr>
                  else res\<lparr>failed := failed res + 1\<rparr>)
      in process_loop (attempt_of B) clock rest res1
           (snd r @ [Done (UpdateOrderStatus (order_id order) st nt), Done (Sleep rate_limit_delay)])
           (snd (update_order_status (clock (snd r)) (order_id order) st nt fl)))"
  by (simp add: attempt_of_def split_beta Let_def do_sleep_def)

lemma process_loop_milestones:
  "\<exists>outs. length outs = length os
      \<and> (\<forall>p \<in> set outs. fst p = ''completed'' \<or> fst p = ''failed'')
      \<and> milestones (fst (snd (process_loop (attempt_of B) clock os res tr fl)))
          = milestones tr
            @ concat (map (\<lambda>(order, st, nt).
                             [Goto (product_url order), UpdateOrderStatus (order_id order) st nt])
                        (zip os outs))"
proof (induction os arbitrary: res tr fl)
  case Nil
  show ?case by simp
next
  case (Cons order rest)
  define r where "r = add_product_to_cart B (product_url order) (size_tok order) (color order)
                        (quantity order) tr"
  define st where "st = (if fst (fst r) then ''completed'' else ''failed'')"
  define nt where "nt = (if fst (fst r) then note_completed else note_failed (snd (fst r)))"
  define res1 where "res1 = (if fst (fst r) then res\<lparr>success := success res + 1\<rparr>
                  else res\<lparr>failed := failed res + 1\<rparr>)"
  define tr2 where "tr2 = snd r @ [Done (UpdateOrderStatus (order_id order) st nt),
                                   Done (Sleep rate_limit_delay)]"
  define fl1 where "fl1 = snd (update_order_status (clock (snd r)) (order_id order) st nt fl)"
  have step: "process_loop (attempt_of B) clock (order # rest) res tr fl
                = process_loop (attempt_of B) clock rest res1 tr2 fl1"
    unfolding process_loop_step r_def st_def nt_def res1_def tr2_def fl1_def Let_def ..
  have m2: "milestones tr2
              = milestones tr @ [Goto (product_url order), UpdateOrderStatus (order_id order) st nt]"
    unfolding tr2_def r_def
    by (simp add: add_product_to_cart_milestones) (simp add: milestones_def)
  from Cons.IH [of res1 tr2 fl1] obtain outs where
    l: "length outs = length rest"
    and s: "\<forall>p \<in> set outs. fst p = ''completed'' \<or> fst p = ''failed''"
    and m: "milestones (fst (snd (process_loop (attempt_of B) clock rest res1 tr2 fl1)))
          = milestones tr2
            @ concat (map (\<lambda>(order, st, nt).
                             [Goto (product_url order), UpdateOrderStatus (order_id order) st nt])
                        (zip rest outs))"
    by blast
  have st_ok: "st = ''completed'' \<or> st = ''failed''"
    by (simp add: st_def)
  show ?case
    unfolding step
    by (rule exI [of _ "(st, nt) # outs"]) (use l s m m2 st_ok in simp)
qed

lemma process_loop_gotos:
  "gotos (fst (snd (process_loop (attempt_of B) clock os res tr fl)))
     = gotos tr @ map (\<lambda>order. Goto (product_url order)) os"
proof (induction os arbitrary: res tr fl)
  case Nil
  show ?case by simp
next
  case (Cons order rest)
  have g: "gotos (snd (add_product_to_cart B (product_url order) (size_tok order) (color order)
                         (quantity order) tr)) = gotos tr @ [Goto (product_url order)]"
    by (simp add: gotos_milestones add_product_to_cart_milestones)
  show ?case
    unfolding process_loop_step Let_def
    by (simp add: Cons.IH g) (simp add: gotos_def)
qed

text \<open>
  C2, as the code has it: the batch never writes the status \<open>processing\<close>. For each
  pending order, in the order fetched, it navigates once to the product page and then
  writes one status, \<open>completed\<close> or \<open>failed\<close>; it makes no other navigation and no
  other status write, so a failed order is not tried again in the run.
\<close>

theorem batch_status_writes:
  "\<exists>outs. length outs = length (get_all_orders (Some ''pending'') fl)
      \<and> (\<forall>p \<in> set outs. fst p = ''completed'' \<or> fst p = ''failed'')
      \<and> milestones (fst (snd (process_pending_orders B clock tr fl)))
          = milestones tr
            @ concat (map (\<lambda>(order, st, nt).
                             [Goto (product_url order), UpdateOrderStatus (order_id order) st nt])
                        (zip (get_all_orders (Some ''pending'') fl) outs))"
proof (cases "get_all_orders (Some ''pending'') fl = []")
  case True
  then show ?thesis
    by (simp add: process_pending_orders_def process_pending_orders_with_def)
next
  case False
  then have "process_pending_orders B clock tr fl
      = process_loop (attempt_of B) clock (get_all_orders (Some ''pending'') fl)
          \<lparr>success = 0, failed = 0,
             total = int (length (get_all_orders (Some ''pending'') fl))\<rparr> tr fl"
    by (simp add: process_pending_orders_def process_pending_orders_with_def Let_def)
  then show ?thesis
    using process_loop_milestones by simp
qed

lemmas run_defs = process_pending_orders_def process_pending_orders_with_def get_all_orders_def
  attempt_of_def add_product_to_cart_def is_valid_product_page_def select_size_def
  select_color_def set_quantity_def click_add_to_cart_def confirm_cart_addition_def
  update_order_status_def update_row_def do_defs perform_def handle_of_def truthy_def
  or_empty_def ex_row_def Let_def

lemmas selector_defs = product_indicators_def success_indicators_def modal_selectors_def
  size_selectors_def all_size_elements_selector_def color_selectors_def qty_selectors_def
  plus_button_selectors_def add_to_cart_selectors_def

theorem batch_status_writes_witness:
  "milestones (fst (snd (process_pending_orders crashed_browser (\<lambda>h. ''T'') []
                           (Some [ex_row ''A1'' ''u1'']))))
     = [Goto ''u1'', UpdateOrderStatus ''A1'' ''failed'' (note_failed (msg_error ''Target closed''))]"
proof -
  have p: "get_all_orders (Some ''pending'') (Some [ex_row ''A1'' ''u1'']) = [ex_row ''A1'' ''u1'']"
    by (simp add: get_all_orders_def ex_row_def)
  have r: "fst (snd (process_pending_orders crashed_browser (\<lambda>h. ''T'') []
                           (Some [ex_row ''A1'' ''u1''])))
     = [Raised (Goto ''u1''),
        Done (UpdateOrderStatus ''A1'' ''failed'' (note_failed (msg_error ''Target closed''))),
        Done (Sleep 2000)]"
    by (simp add: run_defs crashed_browser_def rate_limit_delay_def)
  from batch_status_writes [of "Some [ex_row ''A1'' ''u1'']" crashed_browser "\<lambda>h. ''T''" "[]"]
  show ?thesis
    unfolding r by (simp add: milestones_def)
qed

text \<open>
  The claim fails on a page where the order goes through: the first thing the batch does
  for the order is the navigation, and the only status it writes is \<open>completed\<close>.
\<close>

theorem no_processing_status_counterexample:
  "milestones (fst (snd (process_pending_orders shop_page (\<lambda>h. ''T'') []
                           (Some [ex_row ''A1'' ''https://www.shein.com/fr/item12345'']))))
     = [Goto ''https://www.shein.com/fr/item12345'',
        UpdateOrderStatus ''A1'' ''completed'' note_completed]"
  by (simp add: run_defs selector_defs shop_page_def static_page_def rate_limit_delay_def
        milestones_def str_int_def digits.simps lower_def)

section \<open>Errors of the browser\<close>

text \<open>
  C3, as the code has it: no error of the browser leaves the batch. A navigation that
  raises, as every call does once the browser process is gone, is caught in
  \<open>add_product_to_cart\<close> and becomes the message \<open>Erreur ajout produit: ...\<close>; the
  batch writes the status \<open>failed\<close> with that note, counts a failure and goes on, and
  every pending order is navigated to, in the order fetched.
\<close>

theorem browser_errors_become_failures:
  "(goto B tr url = Inl e \<longrightarrow>
      add_product_to_cart B url sz col qty tr = ((False, msg_error e), tr @ [Raised (Goto url)]))
   \<and> (goto B tr (product_url order) = Inl e \<longrightarrow>
        process_loop (attempt_of B) clock (order # rest) res tr fl
          = process_loop (attempt_of B) clock rest (res\<lparr>failed := failed res + 1\<rparr>)
              (tr @ [Raised (Goto (product_url order)),
                     Done (UpdateOrderStatus (order_id order) ''failed'' (note_failed (msg_error e))),
                     Done (Sleep rate_limit_delay)])
              (snd (update_order_status (clock (tr @ [Raised (Goto (product_url order))]))
                      (order_id order) ''failed'' (note_failed (msg_error e)) fl)))
   \<and> gotos (fst (snd (process_pending_orders B clock tr fl)))
       = gotos tr @ map (\<lambda>order. Goto (product_url order)) (get_all_orders (Some ''pending'') fl)"
proof -
  have a: "goto B tr url = Inl e \<longrightarrow>
      add_product_to_cart B url sz col qty tr = ((False, msg_error e), tr @ [Raised (Goto url)])"
    by (simp add: add_product_to_cart_goto_raises)
  have b: "goto B tr (product_url order) = Inl e \<longrightarrow>
        process_loop (attempt_of B) clock (order # rest) res tr fl
          = process_loop (attempt_of B) clock rest (res\<lparr>failed := failed res + 1\<rparr>)
              (tr @ [Raised (Goto (product_url order)),
                     Done (UpdateOrderStatus (order_id order) ''failed'' (note_failed (msg_error e))),
                     Done (Sleep rate_limit_delay)])
              (snd (update_order_status (clock (tr @ [Raised (Goto (product_url order))]))
                      (order_id order) ''failed'' (note_failed (msg_error e)) fl))"
    unfolding process_loop_step Let_def
    by (simp add: add_product_to_cart_goto_raises)
  have c: "gotos (fst (snd (process_pending_orders B clock tr fl)))
       = gotos tr @ map (\<lambda>order. Goto (product_url order)) (get_all_orders (Some ''pending'') fl)"
  proof (cases "get_all_orders (Some ''pending'') fl = []")
    case True
    then show ?thesis
      by (simp add: process_pending_orders_def process_pending_orders_with_def)
  next
    case False
    then have "process_pending_orders B clock tr fl
      = process_loop (attempt_of B) clock (get_all_orders (Some ''pending'') fl)
          \<lparr>success = 0, failed = 0,
             total = int (length (get_all_orders (Some ''pending'') fl))\<rparr> tr fl"
      by (simp add: process_pending_orders_def process_pending_orders_with_def Let_def)
    then show ?thesis
      by (simp add: process_loop_gotos)
  qed
  show ?thesis
    using a b c by blast
qed

theorem browser_errors_become_failures_witness:
  "goto crashed_browser [] ''u1'' = Inl ''Target closed''
   \<and> add_product_to_cart crashed_browser ''u1'' (PyStr ''M'') PyNone 1 []
       = ((False, msg_error ''Target closed''), [Raised (Goto ''u1'')])
   \<and> gotos (fst (snd (process_pending_orders crashed_browser (\<lambda>h. ''T'') []
                        (Some [ex_row ''A1'' ''u1'', ex_row ''A2'' ''u2'']))))
       = [Goto ''u1'', Goto ''u2'']"
proof -
  have g: "goto crashed_browser [] ''u1'' = Inl ''Target closed''"
    by (simp add: crashed_browser_def)
  have p: "get_all_orders (Some ''pending'') (Some [ex_row ''A1'' ''u1'', ex_row ''A2'' ''u2''])
             = [ex_row ''A1'' ''u1'', ex_row ''A2'' ''u2'']"
    by (simp add: get_all_orders_def ex_row_def)
  have u: "product_url (ex_row ''A1'' ''u1'') = ''u1''" "product_url (ex_row ''A2'' ''u2'') = ''u2''"
    by (simp_all add: ex_row_def)
  from browser_errors_become_failures
         [where B = crashed_browser and tr = "[]" and url = "''u1''" and e = "''Target closed''"
            and sz = "PyStr ''M''" and col = PyNone and qty = 1 and clock = "\<lambda>h. ''T''"
            and fl = "Some [ex_row ''A1'' ''u1'', ex_row ''A2'' ''u2'']"]
  show ?thesis
    using g by (simp add: p u gotos_def)
qed

text \<open>
  The claim fails when the browser process is gone: nothing reaches the caller but the
  counts, both orders are marked \<open>failed\<close>, and the second order is still attempted.
\<close>

theorem fatal_error_swallowed_counterexample:
  "process_pending_orders crashed_browser (\<lambda>h. ''T'') []
     (Some [ex_row ''A1'' ''u1'', ex_row ''A2'' ''u2''])
   = (\<lparr>success = 0, failed = 2, total = 2\<rparr>,
      [Raised (Goto ''u1''),
       Done (UpdateOrderStatus ''A1'' ''failed'' (note_failed (msg_error ''Target closed''))),
       Done (Sleep 2000),
       Raised (Goto ''u2''),
       Done (UpdateOrderStatus ''A2'' ''failed'' (note_failed (msg_error ''Target closed''))),
       Done (Sleep 2000)],
      Some [(ex_row ''A1'' ''u1'')\<lparr>status := ''failed'', processed_at := ''T'',
                                    order_notes := note_failed (msg_error ''Target closed'')\<rparr>,
            (ex_row ''A2'' ''u2'')\<lparr>status := ''failed'', processed_at := ''T'',
                                    order_notes := note_failed (msg_error ''Target closed'')\<rparr>])"
  by (simp add: run_defs crashed_browser_def rate_limit_delay_def note_failed_def msg_error_def)

section \<open>The batch: what ends in the orders file\<close>

lemma update_row_simps [simp]:
  "order_id (update_row now st nt r) = order_id r"
  "status (update_row now st nt r) = st"
  "order_notes (update_row now st nt r) = (if nt = [] then order_notes r else nt)"
  by (simp_all add: update_row_def Let_def)

lemma update_order_status_map:
  "snd (update_order_status now oid st nt (Some df))
     = Some (map (\<lambda>r. if order_id r = oid then update_row now st nt r else r) df)"
proof (cases "list_ex (\<lambda>r. order_id r = oid) df")
  case True
  then show ?thesis by (simp add: update_order_status_def)
next
  case False
  then have "map (\<lambda>r. if order_id r = oid then update_row now st nt r else r) df = df"
    by (auto simp: list_ex_iff intro: map_idI)
  with False show ?thesis by (simp add: update_order_status_def)
qed

text \<open>One turn of the loop, for any attempt: the file it leaves to the next turn.\<close>

lemma process_loop_turn:
  "\<exists>res1 tr2. process_loop A clock (order # rest) res tr fl
     = process_loop A clock rest res1 tr2
         (case fst (A order tr) of
            Inl e \<Rightarrow> fl
          | Inr p \<Rightarrow> snd (update_order_status (clock (snd (A order tr))) (order_id order)
                        (if fst p then ''completed'' else ''failed'')
                        (if fst p then note_completed else note_failed (snd p)) fl))"
proof (cases "fst (A order tr)")
  case (Inl e)
  then show ?thesis by (auto simp: split_beta)
next
  case (Inr p)
  then show ?thesis by (cases "fst p") (auto simp: split_beta Let_def)
qed

lemma turn_file:
  "\<exists>df1. (case r of
            Inl e \<Rightarrow> Some df
          | Inr p \<Rightarrow> snd (update_order_status now oid (st p) (nt p) (Some df))) = Some df1
        \<and> length df1 = length df
        \<and> (\<forall>j < length df. order_id (df1 ! j) = order_id (df ! j)
              \<and> (order_id (df ! j) \<noteq> oid \<longrightarrow> df1 ! j = df ! j)
              \<and> (order_id (df ! j) = oid \<longrightarrow>
                   (case r of Inl e \<Rightarrow> df1 ! j = df ! j
                    | Inr p \<Rightarrow> df1 ! j = update_row now (st p) (nt p) (df ! j))))"
  by (cases r) (simp_all add: update_order_status_map)

lemma process_loop_frame:
  "\<exists>df'. snd (snd (process_loop A clock os res tr (Some df))) = Some df'
        \<and> length df' = length df
        \<and> (\<forall>j < length df. order_id (df' ! j) = order_id (df ! j)
              \<and> (order_id (df ! j) \<notin> order_id ` set os \<longrightarrow> df' ! j = df ! j))"
proof (induction os arbitrary: res tr df)
  case Nil
  show ?case by simp
next
  case (Cons order rest)
  let ?fl1 = "case fst (A order tr) of
            Inl e \<Rightarrow> Some df
          | Inr p \<Rightarrow> snd (update_order_status (clock (snd (A order tr))) (order_id order)
                        (if fst p then ''completed'' else ''failed'')
                        (if fst p then note_completed else note_failed (snd p)) (Some df))"
  from process_loop_turn [of A clock order rest res tr "Some df"] obtain res1 tr2 where
    turn: "process_loop A clock (order # rest) res tr (Some df)
             = process_loop A clock rest res1 tr2 ?fl1"
    by blast
  from turn_file [where r = "fst (A order tr)" and df = df and now = "clock (snd (A order tr))"
                    and oid = "order_id order"
                    and st = "\<lambda>p. if fst p then ''completed'' else ''failed''"
                    and nt = "\<lambda>p. if fst p then note_completed else note_failed (snd p)"]
  obtain df1 where f1: "?fl1 = Some df1" and l1: "length df1 = length df"
    and r1: "\<forall>j < length df. order_id (df1 ! j) = order_id (df ! j)
              \<and> (order_id (df ! j) \<noteq> order_id order \<longrightarrow> df1 ! j = df ! j)"
    by auto
  from Cons.IH [of res1 tr2 df1] obtain df' where
    a: "snd (snd (process_loop A clock rest res1 tr2 (Some df1))) = Some df'"
    and b: "length df' = length df1"
    and c: "\<forall>j < length df1. order_id (df' ! j) = order_id (df1 ! j)
              \<and> (order_id (df1 ! j) \<notin> order_id ` set rest \<longrightarrow> df' ! j = df1 ! j)"
    by blast
  have "snd (snd (process_loop A clock (order # rest) res tr (Some df))) = Some df'"
    unfolding turn f1 using a .
  moreover have "length df' = length df" using b l1 by simp
  moreover have "\<forall>j < length df. order_id (df' ! j) = order_id (df ! j)
              \<and> (order_id (df ! j) \<notin> order_id ` set (order # rest) \<longrightarrow> df' ! j = df ! j)"
    using c r1 l1 by auto
  ultimately show ?case by blast
qed

text \<open>
  When the order ids of the batch are distinct, what the rows of an order end with is
  decided by the attempt on that order alone.
\<close>

lemma process_loop_row:
  assumes "distinct (map order_id os)" and "ord \<in> set os"
    and "\<forall>h. \<exists>m. fst (A ord h) = Inr (b, m) \<and> N m"
  shows "\<exists>df'. snd (snd (process_loop A clock os res tr (Some df))) = Some df'
        \<and> length df' = length df
        \<and> (\<forall>j < length df. order_id (df ! j) = order_id ord \<longrightarrow>
              status (df' ! j) = (if b then ''completed'' else ''failed'')
              \<and> (\<exists>m. N m \<and> order_notes (df' ! j)
                                = (if b then note_completed else note_failed m)))"
  using assms(1,2)
proof (induction os arbitrary: res tr df)
  case Nil
  then show ?case by simp
next
  case (Cons order rest)
  let ?fl1 = "case fst (A order tr) of
            Inl e \<Rightarrow> Some df
          | Inr p \<Rightarrow> snd (update_order_status (clock (snd (A order tr))) (order_id order)
                        (if fst p then ''completed'' else ''failed'')
                        (if fst p then note_completed else note_failed (snd p)) (Some df))"
  from process_loop_turn [of A clock order rest res tr "Some df"] obtain res1 tr2 where
    turn: "process_loop A clock (order # rest) res tr (Some df)
             = process_loop A clock rest res1 tr2 ?fl1"
    by blast
  from turn_file [where r = "fst (A order tr)" and df = df and now = "clock (snd (A order tr))"
                    and oid = "order_id order"
                    and st = "\<lambda>p. if fst p then ''completed'' else ''failed''"
                    and nt = "\<lambda>p. if fst p then note_completed else note_failed (snd p)"]
  obtain df1 where f1: "?fl1 = Some df1" and l1: "length df1 = length df"
    and r1: "\<forall>j < length df. order_id (df1 ! j) = order_id (df ! j)
              \<and> (order_id (df ! j) \<noteq> order_id order \<longrightarrow> df1 ! j = df ! j)
              \<and> (order_id (df ! j) = order_id order \<longrightarrow>
                   (case fst (A order tr) of Inl e \<Rightarrow> df1 ! j = df ! j
                    | Inr p \<Rightarrow> df1 ! j = update_row (clock (snd (A order tr)))
                                 (if fst p then ''completed'' else ''failed'')
                                 (if fst p then note_completed else note_failed (snd p)) (df ! j)))"
    by auto
  have eq: "snd (snd (process_loop A clock (order # rest) res tr (Some df)))
              = snd (snd (process_loop A clock rest res1 tr2 (Some df1)))"
    unfolding turn f1 ..
  show ?case
  proof (cases "order = ord")
    case True
    from assms(3) obtain m where m: "fst (A ord tr) = Inr (b, m)" and n: "N m" by blast
    have notin: "order_id ord \<notin> order_id ` set rest"
      using Cons.prems(1) True by auto
    from process_loop_frame [of A clock rest res1 tr2 df1] obtain df' where
      a: "snd (snd (process_loop A clock rest res1 tr2 (Some df1))) = Some df'"
      and b': "length df' = length df1"
      and c: "\<forall>j < length df1. order_id (df' ! j) = order_id (df1 ! j)
              \<and> (order_id (df1 ! j) \<notin> order_id ` set rest \<longrightarrow> df' ! j = df1 ! j)"
      by blast
    have ne: "note_completed \<noteq> []" "note_failed m \<noteq> []"
      by (simp_all add: note_completed_def note_failed_def)
    have "\<forall>j < length df. order_id (df ! j) = order_id ord \<longrightarrow>
              status (df' ! j) = (if b then ''completed'' else ''failed'')
              \<and> order_notes (df' ! j) = (if b then note_completed else note_failed m)"
    proof (intro allI impI)
      fix j assume j: "j < length df" and id: "order_id (df ! j) = order_id ord"
      from r1 j id True m have u: "df1 ! j = update_row (clock (snd (A order tr)))
                                 (if b then ''completed'' else ''failed'')
                                 (if b then note_completed else note_failed m) (df ! j)"
        by simp
      then have "order_id (df1 ! j) = order_id ord" using id by simp
      with c j l1 notin have "df' ! j = df1 ! j" by simp
      with u ne show "status (df' ! j) = (if b then ''completed'' else ''failed'')
              \<and> order_notes (df' ! j) = (if b then note_completed else note_failed m)"
        by simp
    qed
    with a b' l1 n show ?thesis
      unfolding eq by auto
  next
    case False
    with Cons.prems have in_rest: "ord \<in> set rest" and d: "distinct (map order_id rest)"
      and ne: "order_id order \<noteq> order_id ord"
      by auto
    from Cons.IH [OF d in_rest, of res1 tr2 df1] obtain df' where
      a: "snd (snd (process_loop A clock rest res1 tr2 (Some df1))) = Some df'"
      and b': "length df' = length df1"
      and c: "\<forall>j < length df1. order_id (df1 ! j) = order_id ord \<longrightarrow>
              status (df' ! j) = (if b then ''completed'' else ''failed'')
              \<and> (\<exists>m. N m \<and> order_notes (df' ! j)
                                = (if b then note_completed else note_failed m))"
      by blast
    have "\<forall>j < length df. order_id (df ! j) = order_id ord \<longrightarrow>
              status (df' ! j) = (if b then ''completed'' else ''failed'')
              \<and> (\<exists>m. N m \<and> order_notes (df' ! j)
                                = (if b then note_completed else note_failed m))"
      using c r1 l1 by simp
    with a b' l1 show ?thesis
      unfolding eq by auto
  qed
qed

lemma process_loop_exact_counts:
  assumes "\<forall>ord \<in> set os. \<forall>h. \<exists>m. fst (A ord h) = Inr (ok ord, m)"
  shows "fst (process_loop A clock os res tr fl)
           = res\<lparr>success := success res + int (length (filter ok os)),
                 failed := failed res + int (length (filter (\<lambda>x. \<not> ok x) os))\<rparr>"
  using assms
proof (induction os arbitrary: res tr fl)
  case Nil
  show ?case by simp
next
  case (Cons order rest)
  from Cons.prems have "\<forall>h. \<exists>m. fst (A order h) = Inr (ok order, m)" by simp
  then obtain m where m: "fst (A order tr) = Inr (ok order, m)" by blast
  from Cons.prems have rest: "\<forall>ord \<in> set rest. \<forall>h. \<exists>m. fst (A ord h) = Inr (ok ord, m)"
    by simp
  show ?case
    using m by (cases "ok order") (simp_all add: split_beta Let_def Cons.IH [OF rest])
qed

lemma distinct_filter_one:
  "distinct (map f xs) \<Longrightarrow> k < length xs \<Longrightarrow> length (filter (\<lambda>x. f x = f (xs ! k)) xs) = 1"
proof (induction xs arbitrary: k)
  case Nil
  then show ?case by simp
next
  case (Cons x xs)
  show ?case
  proof (cases k)
    case 0
    have "filter (\<lambda>y. f y = f x) xs = []"
      using Cons.prems(1) by (fastforce simp: filter_empty_conv image_iff)
    then show ?thesis using 0 by simp
  next
    case (Suc k')
    then have "f x \<noteq> f (xs ! k')"
      using Cons.prems by (auto simp: image_iff)
    then show ?thesis
      using Suc Cons.IH [of k'] Cons.prems by simp
  qed
qed

lemma attempt_of_result:
  "fst (attempt_of B ord h)
     = Inr (attempt_succeeds B ord h,
            snd (fst (add_product_to_cart B (product_url ord) (size_tok ord) (color ord)
                        (quantity ord) h)))"
  by (simp add: attempt_of_def attempt_succeeds_def split_beta)

lemma pending_orders_filter:
  "get_all_orders (Some ''pending'') (Some df) = filter (\<lambda>r. status r = ''pending'') df"
  by (simp add: get_all_orders_def)

lemma process_pending_orders_loop:
  "get_all_orders (Some ''pending'') fl \<noteq> [] \<Longrightarrow>
     process_pending_orders B clock tr fl
       = process_loop (attempt_of B) clock (get_all_orders (Some ''pending'') fl)
           \<lparr>success = 0, failed = 0,
              total = int (length (get_all_orders (Some ''pending'') fl))\<rparr> tr fl"
  by (simp add: process_pending_orders_def process_pending_orders_with_def Let_def)

text \<open>
  C1: in a batch of pending orders with distinct ids, in which the attempt on order \<open>k\<close>
  fails and the attempt on every other order succeeds, every order is navigated to, the
  counts are N - 1 successes, one failure and N in total, and in the file the rows of
  order \<open>k\<close> end \<open>failed\<close> and every other pending row ends \<open>completed\<close>.
\<close>

theorem one_failure_does_not_stop_the_batch:
  assumes pend: "pend = get_all_orders (Some ''pending'') (Some df)"
    and k: "k < length pend"
    and dist: "distinct (map order_id pend)"
    and fails: "\<forall>h. \<not> attempt_succeeds B (pend ! k) h"
    and others: "\<forall>i < length pend. i \<noteq> k \<longrightarrow> (\<forall>h. attempt_succeeds B (pend ! i) h)"
  shows "fst (process_pending_orders B clock tr (Some df))
           = \<lparr>success = int (length pend) - 1, failed = 1, total = int (length pend)\<rparr>
         \<and> gotos (fst (snd (process_pending_orders B clock tr (Some df))))
           = gotos tr @ map (\<lambda>ord. Goto (product_url ord)) pend
         \<and> (\<exists>df'. snd (snd (process_pending_orders B clock tr (Some df))) = Some df'
               \<and> length df' = length df
               \<and> (\<forall>j < length df. status (df ! j) = ''pending'' \<longrightarrow>
                     status (df' ! j)
                       = (if order_id (df ! j) = order_id (pend ! k) then ''failed''
                          else ''completed'')))"
proof -
  define ok where "ok ord = (order_id ord \<noteq> order_id (pend ! k))" for ord :: order_row
  let ?res0 = "\<lparr>success = 0, failed = 0, total = int (length pend)\<rparr>"
  have ne: "get_all_orders (Some ''pending'') (Some df) \<noteq> []"
    using k pend by auto
  have run: "process_pending_orders B clock tr (Some df)
               = process_loop (attempt_of B) clock pend ?res0 tr (Some df)"
    using process_pending_orders_loop [OF ne] pend by simp
  have outcome: "attempt_succeeds B ord h = ok ord" if "ord \<in> set pend" for ord h
  proof -
    from that obtain i where i: "i < length pend" "ord = pend ! i"
      by (auto simp: in_set_conv_nth)
    show ?thesis
    proof (cases "i = k")
      case True
      then show ?thesis using fails i by (simp add: ok_def)
    next
      case False
      then have "order_id (pend ! i) \<noteq> order_id (pend ! k)"
        using dist i k by (simp add: distinct_conv_nth)
      then show ?thesis using others i False by (simp add: ok_def)
    qed
  qed
  have per_order: "\<forall>ord \<in> set pend. \<forall>h. \<exists>m. fst (attempt_of B ord h) = Inr (ok ord, m)"
    using outcome by (simp add: attempt_of_result)
  have one: "length (filter (\<lambda>x. \<not> ok x) pend) = 1"
    using distinct_filter_one [OF dist k] by (simp add: ok_def)
  have "length (filter ok pend) + length (filter (\<lambda>x. \<not> ok x) pend) = length pend"
    by (rule sum_length_filter_compl)
  with one have rest: "int (length (filter ok pend)) = int (length pend) - 1"
    by simp
  have counts: "fst (process_pending_orders B clock tr (Some df))
           = \<lparr>success = int (length pend) - 1, failed = 1, total = int (length pend)\<rparr>"
    unfolding run process_loop_exact_counts [OF per_order] using one rest by simp
  have nav: "gotos (fst (snd (process_pending_orders B clock tr (Some df))))
           = gotos tr @ map (\<lambda>ord. Goto (product_url ord)) pend"
    unfolding run by (rule process_loop_gotos)
  from process_loop_frame [of "attempt_of B" clock pend ?res0 tr df] obtain df' where
    fl: "snd (snd (process_loop (attempt_of B) clock pend ?res0 tr (Some df))) = Some df'"
    and len: "length df' = length df"
    by blast
  have rows: "\<forall>j < length df. status (df ! j) = ''pending'' \<longrightarrow>
                     status (df' ! j)
                       = (if order_id (df ! j) = order_id (pend ! k) then ''failed''
                          else ''completed'')"
  proof (intro allI impI)
    fix j assume j: "j < length df" and p: "status (df ! j) = ''pending''"
    then have mem: "df ! j \<in> set pend"
      by (simp add: pend pending_orders_filter)
    have "\<forall>h. \<exists>m. fst (attempt_of B (df ! j) h) = Inr (ok (df ! j), m) \<and> True"
      using per_order mem by simp
    from process_loop_row [where N = "\<lambda>m. True" and clock = clock and res = ?res0 and tr = tr
                             and df = df and A = "attempt_of B" and ord = "df ! j"
                             and b = "ok (df ! j)" and os = pend, OF dist mem this] fl j
    have "status (df' ! j) = (if ok (df ! j) then ''completed'' else ''failed'')"
      by auto
    then show "status (df' ! j)
                 = (if order_id (df ! j) = order_id (pend ! k) then ''failed'' else ''completed'')"
      by (simp add: ok_def)
  qed
  show ?thesis
    using counts nav fl len rows unfolding run by blast
qed

lemma shop_page_order_succeeds:
  "attempt_succeeds shop_page (ex_row oid url) h"
  by (simp add: attempt_succeeds_def run_defs selector_defs shop_page_def static_page_def
        str_int_def digits.simps lower_def)

lemma shop_page_xxl_fails:
  "\<not> attempt_succeeds shop_page (ex_row_xxl oid url) h"
  by (simp add: attempt_succeeds_def ex_row_xxl_def run_defs selector_defs shop_page_def
        static_page_def)

theorem one_failure_does_not_stop_the_batch_witness:
  "fst (process_pending_orders shop_page (\<lambda>h. ''T'') []
          (Some [ex_row ''A1'' ''u1'', ex_row_xxl ''A2'' ''u2'', ex_row ''A3'' ''u3'']))
     = \<lparr>success = 2, failed = 1, total = 3\<rparr>
   \<and> gotos (fst (snd (process_pending_orders shop_page (\<lambda>h. ''T'') []
          (Some [ex_row ''A1'' ''u1'', ex_row_xxl ''A2'' ''u2'', ex_row ''A3'' ''u3'']))))
     = [Goto ''u1'', Goto ''u2'', Goto ''u3'']"
proof -
  let ?df = "[ex_row ''A1'' ''u1'', ex_row_xxl ''A2'' ''u2'', ex_row ''A3'' ''u3'']"
  have p: "?df = get_all_orders (Some ''pending'') (Some ?df)"
    by (simp add: get_all_orders_def ex_row_def ex_row_xxl_def)
  have k: "(1::nat) < length ?df" by simp
  have d: "distinct (map order_id ?df)"
    by (simp add: ex_row_def ex_row_xxl_def)
  have f: "\<forall>h. \<not> attempt_succeeds shop_page (?df ! 1) h"
    by (simp add: shop_page_xxl_fails)
  have o: "\<forall>i < length ?df. i \<noteq> 1 \<longrightarrow> (\<forall>h. attempt_succeeds shop_page (?df ! i) h)"
  proof (intro allI impI)
    fix i h assume "i < length ?df" and "i \<noteq> 1"
    then have "i = 0 \<or> i = 2" by auto
    then show "attempt_succeeds shop_page (?df ! i) h"
      by (auto simp: shop_page_order_succeeds)
  qed
  from one_failure_does_not_stop_the_batch [OF p k d f o, of "\<lambda>h. ''T''" "[]"]
  show ?thesis
    by (simp add: gotos_def) (simp add: ex_row_def ex_row_xxl_def)
qed

section \<open>Size is required, colour is not\<close>

lemma starts_with_self: "starts_with (s @ b) s"
  by (induction s) simp_all

lemma contains_mid: "contains (a @ s @ b) s"
proof (induction a)
  case Nil
  show ?case
  proof (cases "s @ b")
    case Nil
    then show ?thesis by simp
  next
    case (Cons c cs)
    then show ?thesis
      using starts_with_self [of s b] by simp
  qed
next
  case (Cons c a)
  then show ?case by simp
qed

lemma note_mentions_size: "contains (note_failed (msg_size_not_found s)) s"
proof -
  have "note_failed (msg_size_not_found s)
          = (''Erreur: Taille '' @ [CHR 0x27]) @ s
            @ ([CHR 0x27] @ '' non trouv'' @ [CHR 0xC3, CHR 0xA9]
               @ ''e ou non s'' @ [CHR 0xC3, CHR 0xA9] @ ''lectionnable'')"
    by (simp add: note_failed_def msg_size_not_found_def)
  then show ?thesis
    by (simp only: contains_mid)
qed

lemma size_not_cart:
  "s \<in> set (size_selectors target) \<Longrightarrow> s \<notin> set add_to_cart_selectors"
  by (auto simp: size_selectors_def add_to_cart_selectors_def dest: arg_cong [where f = rev])

lemma indicator_not_cart:
  "s \<in> set product_indicators \<Longrightarrow> s \<notin> set add_to_cart_selectors"
  by (auto simp: product_indicators_def add_to_cart_selectors_def)

lemma confirm_always: "fst (confirm_cart_addition B tr)"
  by (simp add: confirm_cart_addition_def split_beta)

lemma size_failure_result:
  assumes "py_bool sz" and "goto B tr url = Inr ()"
    and "fst (is_valid_product_page B (tr @ [Done (Goto url), Done (Sleep 2000)]))"
    and "\<not> fst (select_size B sz
                 (snd (is_valid_product_page B (tr @ [Done (Goto url), Done (Sleep 2000)]))))"
  shows "add_product_to_cart B url sz col qty tr
           = ((False, msg_size_not_found (py_format sz)),
              snd (select_size B sz
                     (snd (is_valid_product_page B (tr @ [Done (Goto url), Done (Sleep 2000)])))))"
  using assms
  by (simp add: add_product_to_cart_def do_goto_def perform_def do_sleep_def split_beta Let_def)

lemma size_failure_no_cart_wait:
  "emits (\<lambda>c. \<not> is_cart_wait c) tr
     (snd (select_size B target
             (snd (is_valid_product_page B (tr @ [Done (Goto url), Done (Sleep 2000)])))))"
proof -
  let ?P = "\<lambda>c. \<not> is_cart_wait c"
  have 1: "emits ?P tr (tr @ [Done (Goto url), Done (Sleep 2000)])"
    by (simp add: emits_append emits_refl)
  have 2: "emits ?P tr (snd (is_valid_product_page B (tr @ [Done (Goto url), Done (Sleep 2000)])))"
    using 1 by (intro is_valid_product_page_acc) (simp_all add: indicator_not_cart)
  show ?thesis
    using 2 by (intro select_size_acc) (simp_all add: size_not_cart)
qed

lemma add_to_cart_loop_first:
  "emits (\<lambda>c. True) (tr @ [event_of (wait_for_selector B tr sel 5000) (WaitForSelector sel 5000)])
     (snd (add_to_cart_loop B (sel # sels) tr))"
proof -
  define tr1 where "tr1 = tr @ [event_of (wait_for_selector B tr sel 5000) (WaitForSelector sel 5000)]"
  have w: "do_wait B sel 5000 tr = (wait_for_selector B tr sel 5000, tr1)"
    by (simp add: tr1_def do_wait_def perform_def)
  have "emits (\<lambda>c. True) tr1 (snd (add_to_cart_loop B (sel # sels) tr))"
    by (auto simp: w do_attr_def do_click_def do_sleep_def perform_simps split_beta Let_def
          emits_append emits_refl split: option.splits sum.splits intro!: add_to_cart_loop_acc)
  then show ?thesis by (simp add: tr1_def)
qed

lemma click_add_to_cart_leaves_wait:
  "\<not> emits (\<lambda>c. \<not> is_cart_wait c) tr (snd (click_add_to_cart B tr))"
proof -
  let ?sel = \<open>''[data-testid="add-to-cart"]''\<close>
  let ?ev = "event_of (wait_for_selector B tr ?sel 5000) (WaitForSelector ?sel 5000)"
  obtain sels where sels: "add_to_cart_selectors = ?sel # sels"
    by (simp add: add_to_cart_selectors_def)
  from add_to_cart_loop_first [of tr B ?sel sels]
  obtain ext where "snd (click_add_to_cart B tr) = tr @ (?ev # ext)"
    by (auto simp: emits_iff click_add_to_cart_def sels)
  moreover have "is_cart_wait (call_of ?ev)"
    by (simp add: add_to_cart_selectors_def)
  ultimately show ?thesis
    by (simp add: emits_append emits_refl)
qed

lemma colour_failure_result:
  assumes "goto B tr url = Inr ()" and "\<forall>h. fst (is_valid_product_page B h)"
    and "py_bool sz \<longrightarrow> (\<forall>h. fst (select_size B sz h))"
    and "\<forall>h. fst (click_add_to_cart B h)"
  shows "fst (add_product_to_cart B url sz col qty tr) = (True, msg_added)"
  using assms
  by (simp add: add_product_to_cart_def do_goto_def perform_def split_beta Let_def confirm_always)

text \<open>
  C5. The size step runs when the test \<open>if size\<close> holds: for a size that is a non-empty
  text, and also for the \<open>nan\<close> of an empty size cell, which is then looked for as the
  text \<open>nan\<close>. An order whose size passes that test and is not resolved on its product
  page ends the attempt with the message naming the size, right after the size
  resolution: no add-to-cart selector is waited for, whereas any call of
  \<open>_click_add_to_cart\<close> waits for one. In the batch the rows of such an order end
  \<open>failed\<close> with the note that starts with \<open>Erreur: Taille\<close>, which contains the size.
  An order whose colour is not resolved, and whose navigation, page check, size step (when
  it runs) and add-to-cart click succeed, is added all the same, and in the batch its rows
  end \<open>completed\<close>.
\<close>

theorem size_required_colour_optional:
  "(py_bool sz \<and> goto B tr url = Inr ()
      \<and> fst (is_valid_product_page B (tr @ [Done (Goto url), Done (Sleep 2000)]))
      \<and> \<not> fst (select_size B sz
                  (snd (is_valid_product_page B (tr @ [Done (Goto url), Done (Sleep 2000)]))))
      \<longrightarrow>
        add_product_to_cart B url sz col qty tr
          = ((False, msg_size_not_found (py_format sz)),
             snd (select_size B sz
                    (snd (is_valid_product_page B (tr @ [Done (Goto url), Done (Sleep 2000)])))))
        \<and> emits (\<lambda>c. \<not> is_cart_wait c) tr (snd (add_product_to_cart B url sz col qty tr))
        \<and> contains (note_failed (msg_size_not_found (py_format sz))) (py_format sz))
   \<and> \<not> emits (\<lambda>c. \<not> is_cart_wait c) tr (snd (click_add_to_cart B tr))
   \<and> (ord \<in> set (get_all_orders (Some ''pending'') (Some df))
        \<and> distinct (map order_id (get_all_orders (Some ''pending'') (Some df)))
        \<and> py_bool (size_tok ord)
        \<and> (\<forall>h. goto B h (product_url ord) = Inr ())
        \<and> (\<forall>h. fst (is_valid_product_page B h))
        \<and> (\<forall>h. \<not> fst (select_size B (size_tok ord) h))
      \<longrightarrow>
        (\<exists>df'. snd (snd (process_pending_orders B clock tr (Some df))) = Some df'
            \<and> length df' = length df
            \<and> (\<forall>j < length df. order_id (df ! j) = order_id ord \<longrightarrow>
                  status (df' ! j) = ''failed''
                  \<and> order_notes (df' ! j)
                      = note_failed (msg_size_not_found (py_format (size_tok ord))))))
   \<and> (py_bool col \<and> (\<forall>h. \<not> fst (select_color B col h))
        \<and> goto B tr url = Inr ()
        \<and> (\<forall>h. fst (is_valid_product_page B h))
        \<and> (py_bool sz \<longrightarrow> (\<forall>h. fst (select_size B sz h)))
        \<and> (\<forall>h. fst (click_add_to_cart B h))
      \<longrightarrow> fst (add_product_to_cart B url sz col qty tr) = (True, msg_added))
   \<and> (ord \<in> set (get_all_orders (Some ''pending'') (Some df))
        \<and> distinct (map order_id (get_all_orders (Some ''pending'') (Some df)))
        \<and> py_bool (color ord)
        \<and> (\<forall>h. \<not> fst (select_color B (color ord) h))
        \<and> (\<forall>h. goto B h (product_url ord) = Inr ())
        \<and> (\<forall>h. fst (is_valid_product_page B h))
        \<and> (py_bool (size_tok ord) \<longrightarrow> (\<forall>h. fst (select_size B (size_tok ord) h)))
        \<and> (\<forall>h. fst (click_add_to_cart B h))
      \<longrightarrow>
        (\<exists>df'. snd (snd (process_pending_orders B clock tr (Some df))) = Some df'
            \<and> length df' = length df
            \<and> (\<forall>j < length df. order_id (df ! j) = order_id ord \<longrightarrow>
                  status (df' ! j) = ''completed'')))"
proof -
  let ?pend = "get_all_orders (Some ''pending'') (Some df)"
  let ?res0 = "\<lparr>success = 0, failed = 0, total = int (length ?pend)\<rparr>"
  have a: "py_bool sz \<and> goto B tr url = Inr ()
      \<and> fst (is_valid_product_page B (tr @ [Done (Goto url), Done (Sleep 2000)]))
      \<and> \<not> fst (select_size B sz
                  (snd (is_valid_product_page B (tr @ [Done (Goto url), Done (Sleep 2000)]))))
      \<longrightarrow>
        add_product_to_cart B url sz col qty tr
          = ((False, msg_size_not_found (py_format sz)),
             snd (select_size B sz
                    (snd (is_valid_product_page B (tr @ [Done (Goto url), Done (Sleep 2000)])))))
        \<and> emits (\<lambda>c. \<not> is_cart_wait c) tr (snd (add_product_to_cart B url sz col qty tr))
        \<and> contains (note_failed (msg_size_not_found (py_format sz))) (py_format sz)"
    using size_failure_no_cart_wait [of tr B sz url]
    by (auto simp: size_failure_result note_mentions_size)
  have b: "\<not> emits (\<lambda>c. \<not> is_cart_wait c) tr (snd (click_add_to_cart B tr))"
    by (rule click_add_to_cart_leaves_wait)
  have c: "\<exists>df'. snd (snd (process_pending_orders B clock tr (Some df))) = Some df'
            \<and> length df' = length df
            \<and> (\<forall>j < length df. order_id (df ! j) = order_id ord \<longrightarrow>
                  status (df' ! j) = ''failed''
                  \<and> order_notes (df' ! j)
                      = note_failed (msg_size_not_found (py_format (size_tok ord))))"
    if mem: "ord \<in> set ?pend" and dist: "distinct (map order_id ?pend)"
      and sz: "py_bool (size_tok ord)"
      and g: "\<forall>h. goto B h (product_url ord) = Inr ()"
      and v: "\<forall>h. fst (is_valid_product_page B h)"
      and s: "\<forall>h. \<not> fst (select_size B (size_tok ord) h)"
  proof -
    have ne: "?pend \<noteq> []" using mem by auto
    have "\<forall>h. \<exists>m. fst (attempt_of B ord h) = Inr (False, m)
                  \<and> m = msg_size_not_found (py_format (size_tok ord))"
      using sz g v s by (simp add: attempt_of_def split_beta size_failure_result)
    from process_loop_row [where N = "\<lambda>m. m = msg_size_not_found (py_format (size_tok ord))"
           and clock = clock and res = ?res0 and tr = tr and df = df and A = "attempt_of B"
           and ord = ord and b = False and os = ?pend, OF dist mem this]
    show ?thesis
      unfolding process_pending_orders_loop [OF ne] by simp
  qed
  have d: "py_bool col \<and> (\<forall>h. \<not> fst (select_color B col h))
        \<and> goto B tr url = Inr ()
        \<and> (\<forall>h. fst (is_valid_product_page B h))
        \<and> (py_bool sz \<longrightarrow> (\<forall>h. fst (select_size B sz h)))
        \<and> (\<forall>h. fst (click_add_to_cart B h))
      \<longrightarrow> fst (add_product_to_cart B url sz col qty tr) = (True, msg_added)"
    by (simp add: colour_failure_result)
  have e: "\<exists>df'. snd (snd (process_pending_orders B clock tr (Some df))) = Some df'
            \<and> length df' = length df
            \<and> (\<forall>j < length df. order_id (df ! j) = order_id ord \<longrightarrow>
                  status (df' ! j) = ''completed'')"
    if mem: "ord \<in> set ?pend" and dist: "distinct (map order_id ?pend)"
      and g: "\<forall>h. goto B h (product_url ord) = Inr ()"
      and v: "\<forall>h. fst (is_valid_product_page B h)"
      and s: "py_bool (size_tok ord) \<longrightarrow> (\<forall>h. fst (select_size B (size_tok ord) h))"
      and k: "\<forall>h. fst (click_add_to_cart B h)"
  proof -
    have ne: "?pend \<noteq> []" using mem by auto
    have "\<forall>h. \<exists>m. fst (attempt_of B ord h) = Inr (True, m) \<and> True"
      using colour_failure_result [of B _ "product_url ord" "size_tok ord" "color ord"
                                      "quantity ord"] g v s k
      by (simp add: attempt_of_def split_beta)
    from process_loop_row [where N = "\<lambda>m. True"
           and clock = clock and res = ?res0 and tr = tr and df = df and A = "attempt_of B"
           and ord = ord and b = True and os = ?pend, OF dist mem this]
    show ?thesis
      unfolding process_pending_orders_loop [OF ne] by auto
  qed
  show ?thesis
    using a b c d e by blast
qed

theorem size_required_colour_optional_witness:
  "fst (add_product_to_cart shop_page ''u2'' (PyStr ''XXL'') (PyStr ''Rouge'') 2 [])
     = (False, msg_size_not_found ''XXL'')
   \<and> contains (note_failed (msg_size_not_found ''XXL'')) ''XXL''
   \<and> fst (add_product_to_cart shop_page ''u1'' (PyStr ''M'') (PyStr ''Rouge'') 2 [])
     = (True, msg_added)
   \<and> fst (add_product_to_cart labelled_page ''u3'' PyNaN (PyStr ''Rouge'') 2 [])
     = (False, msg_size_not_found ''nan'')
   \<and> status (the (snd (snd (process_pending_orders shop_page (\<lambda>h. ''T'') []
                  (Some [ex_row ''A1'' ''u1'', ex_row_xxl ''A2'' ''u2'',
                         ex_row_nosize ''A3'' ''u3''])))) ! 0)
     = ''completed''
   \<and> status (the (snd (snd (process_pending_orders shop_page (\<lambda>h. ''T'') []
                  (Some [ex_row ''A1'' ''u1'', ex_row_xxl ''A2'' ''u2'',
                         ex_row_nosize ''A3'' ''u3''])))) ! 1)
     = ''failed''
   \<and> order_notes (the (snd (snd (process_pending_orders shop_page (\<lambda>h. ''T'') []
                  (Some [ex_row ''A1'' ''u1'', ex_row_xxl ''A2'' ''u2'',
                         ex_row_nosize ''A3'' ''u3''])))) ! 1)
     = note_failed (msg_size_not_found ''XXL'')
   \<and> status (the (snd (snd (process_pending_orders shop_page (\<lambda>h. ''T'') []
                  (Some [ex_row ''A1'' ''u1'', ex_row_xxl ''A2'' ''u2'',
                         ex_row_nosize ''A3'' ''u3''])))) ! 2)
     = ''failed''
   \<and> order_notes (the (snd (snd (process_pending_orders shop_page (\<lambda>h. ''T'') []
                  (Some [ex_row ''A1'' ''u1'', ex_row_xxl ''A2'' ''u2'',
                         ex_row_nosize ''A3'' ''u3''])))) ! 2)
     = note_failed (msg_size_not_found ''nan'')"
proof -
  let ?df = "[ex_row ''A1'' ''u1'', ex_row_xxl ''A2'' ''u2'', ex_row_nosize ''A3'' ''u3'']"
  have p: "get_all_orders (Some ''pending'') (Some ?df) = ?df"
    by (simp add: get_all_orders_def ex_row_def ex_row_xxl_def ex_row_nosize_def)
  have f: "size_tok (ex_row ''A1'' ''u1'') = PyStr ''M''" "color (ex_row ''A1'' ''u1'') = PyStr ''Rouge''"
    "size_tok (ex_row_xxl ''A2'' ''u2'') = PyStr ''XXL''"
    "size_tok (ex_row_nosize ''A3'' ''u3'') = PyNaN"
    "order_id (ex_row ''A1'' ''u1'') = ''A1''" "order_id (ex_row_xxl ''A2'' ''u2'') = ''A2''"
    "order_id (ex_row_nosize ''A3'' ''u3'') = ''A3''"
    by (simp_all add: ex_row_def ex_row_xxl_def ex_row_nosize_def)
  have g: "goto shop_page h u = Inr ()" for h u
    by (simp add: shop_page_def static_page_def)
  have v: "fst (is_valid_product_page shop_page h)" for h
    by (simp add: is_valid_product_page_def product_indicators_def shop_page_def static_page_def
          do_defs perform_def handle_of_def)
  have sx: "\<not> fst (select_size shop_page (PyStr ''XXL'') h)" for h
    by (simp add: select_size_def size_selectors_def shop_page_def static_page_def
          do_defs perform_def handle_of_def)
  have sn: "\<not> fst (select_size shop_page PyNaN h)" for h
    by (simp add: select_size_def size_selectors_def shop_page_def static_page_def
          do_defs perform_def handle_of_def)
  have sm: "fst (select_size shop_page (PyStr ''M'') h)" for h
    by (simp add: select_size_def size_selectors_def shop_page_def static_page_def
          do_defs perform_def handle_of_def)
  have c: "\<not> fst (select_color shop_page (PyStr ''Rouge'') h)" for h
    by (simp add: select_color_def color_selectors_def shop_page_def static_page_def
          do_defs perform_def lower_def)
  have k: "fst (click_add_to_cart shop_page h)" for h
    by (simp add: click_add_to_cart_def add_to_cart_selectors_def shop_page_def static_page_def
          do_defs perform_def handle_of_def truthy_def)
  have t: "py_bool (PyStr ''XXL'')" "py_bool (PyStr ''M'')" "py_bool (PyStr ''Rouge'')"
    "py_bool PyNaN" "py_format PyNaN = ''nan''"
    by simp_all
  from size_required_colour_optional
         [where B = shop_page and tr = "[]" and url = "''u2''" and sz = "PyStr ''XXL''"
            and col = "PyStr ''Rouge''" and qty = 2]
  have 1: "fst (add_product_to_cart shop_page ''u2'' (PyStr ''XXL'') (PyStr ''Rouge'') 2 [])
             = (False, msg_size_not_found ''XXL'')
           \<and> contains (note_failed (msg_size_not_found ''XXL'')) ''XXL''"
    using g v sx t by simp
  from size_required_colour_optional
         [where B = shop_page and tr = "[]" and url = "''u1''" and sz = "PyStr ''M''"
            and col = "PyStr ''Rouge''" and qty = 2]
  have 2: "fst (add_product_to_cart shop_page ''u1'' (PyStr ''M'') (PyStr ''Rouge'') 2 [])
             = (True, msg_added)"
    using g v sm c k t by simp
  have gl: "goto labelled_page h u = Inr ()" for h u
    by (simp add: labelled_page_def static_page_def)
  have vl: "fst (is_valid_product_page labelled_page h)" for h
    by (simp add: is_valid_product_page_def product_indicators_def labelled_page_def
          static_page_def do_defs perform_def handle_of_def)
  have sl: "\<not> fst (select_size labelled_page PyNaN h)" for h
    by (simp add: select_size_def size_selectors_def all_size_elements_selector_def
          labelled_page_def static_page_def do_defs perform_def handle_of_def truthy_def)
  from size_required_colour_optional
         [where B = labelled_page and tr = "[]" and url = "''u3''" and sz = PyNaN
            and col = "PyStr ''Rouge''" and qty = 2]
  have 5: "fst (add_product_to_cart labelled_page ''u3'' PyNaN (PyStr ''Rouge'') 2 [])
             = (False, msg_size_not_found ''nan'')"
    using gl vl sl t by simp
  have d: "distinct (map order_id (get_all_orders (Some ''pending'') (Some ?df)))"
    by (simp add: p f)
  have hyp3: "ex_row_xxl ''A2'' ''u2'' \<in> set (get_all_orders (Some ''pending'') (Some ?df))
              \<and> distinct (map order_id (get_all_orders (Some ''pending'') (Some ?df)))
              \<and> py_bool (size_tok (ex_row_xxl ''A2'' ''u2''))
              \<and> (\<forall>h. goto shop_page h (product_url (ex_row_xxl ''A2'' ''u2'')) = Inr ())
              \<and> (\<forall>h. fst (is_valid_product_page shop_page h))
              \<and> (\<forall>h. \<not> fst (select_size shop_page (size_tok (ex_row_xxl ''A2'' ''u2'')) h))"
    using g v sx t d by (simp add: p f)
  from size_required_colour_optional
         [where B = shop_page and tr = "[]" and df = ?df and ord = "ex_row_xxl ''A2'' ''u2''"
            and clock = "\<lambda>h. ''T''" and url = "''u2''" and sz = "PyStr ''XXL''"
            and col = "PyStr ''Rouge''" and qty = 2] hyp3
  obtain df3 where
    s3: "snd (snd (process_pending_orders shop_page (\<lambda>h. ''T'') [] (Some ?df))) = Some df3"
    and r3: "\<forall>j < length ?df. order_id (?df ! j) = order_id (ex_row_xxl ''A2'' ''u2'') \<longrightarrow>
               status (df3 ! j) = ''failed''
               \<and> order_notes (df3 ! j)
                   = note_failed (msg_size_not_found (py_format (size_tok (ex_row_xxl ''A2'' ''u2''))))"
    by blast
  have 3: "status (the (snd (snd (process_pending_orders shop_page (\<lambda>h. ''T'') [] (Some ?df)))) ! 1)
             = ''failed''
           \<and> order_notes (the (snd (snd (process_pending_orders shop_page (\<lambda>h. ''T'') []
                                           (Some ?df)))) ! 1)
             = note_failed (msg_size_not_found ''XXL'')"
    using r3 [rule_format, of 1] s3 by (simp add: f t)
  have hyp6: "ex_row_nosize ''A3'' ''u3'' \<in> set (get_all_orders (Some ''pending'') (Some ?df))
              \<and> distinct (map order_id (get_all_orders (Some ''pending'') (Some ?df)))
              \<and> py_bool (size_tok (ex_row_nosize ''A3'' ''u3''))
              \<and> (\<forall>h. goto shop_page h (product_url (ex_row_nosize ''A3'' ''u3'')) = Inr ())
              \<and> (\<forall>h. fst (is_valid_product_page shop_page h))
              \<and> (\<forall>h. \<not> fst (select_size shop_page (size_tok (ex_row_nosize ''A3'' ''u3'')) h))"
    using g v sn t d by (simp add: p f)
  from size_required_colour_optional
         [where B = shop_page and tr = "[]" and df = ?df and ord = "ex_row_nosize ''A3'' ''u3''"
            and clock = "\<lambda>h. ''T''" and url = "''u3''" and sz = PyNaN
            and col = "PyStr ''Rouge''" and qty = 2] hyp6
  obtain df6 where
    s6: "snd (snd (process_pending_orders shop_page (\<lambda>h. ''T'') [] (Some ?df))) = Some df6"
    and r6: "\<forall>j < length ?df. order_id (?df ! j) = order_id (ex_row_nosize ''A3'' ''u3'') \<longrightarrow>
               status (df6 ! j) = ''failed''
               \<and> order_notes (df6 ! j)
                   = note_failed (msg_size_not_found (py_format (size_tok (ex_row_nosize ''A3'' ''u3''))))"
    by blast
  have 6: "status (the (snd (snd (process_pending_orders shop_page (\<lambda>h. ''T'') [] (Some ?df)))) ! 2)
             = ''failed''
           \<and> order_notes (the (snd (snd (process_pending_orders shop_page (\<lambda>h. ''T'') []
                                           (Some ?df)))) ! 2)
             = note_failed (msg_size_not_found ''nan'')"
    using r6 [rule_format, of 2] s6 by (simp add: f t)
  have hyp4: "ex_row ''A1'' ''u1'' \<in> set (get_all_orders (Some ''pending'') (Some ?df))
              \<and> distinct (map order_id (get_all_orders (Some ''pending'') (Some ?df)))
              \<and> py_bool (color (ex_row ''A1'' ''u1''))
              \<and> (\<forall>h. \<not> fst (select_color shop_page (color (ex_row ''A1'' ''u1'')) h))
              \<and> (\<forall>h. goto shop_page h (product_url (ex_row ''A1'' ''u1'')) = Inr ())
              \<and> (\<forall>h. fst (is_valid_product_page shop_page h))
              \<and> (py_bool (size_tok (ex_row ''A1'' ''u1'')) \<longrightarrow>
                    (\<forall>h. fst (select_size shop_page (size_tok (ex_row ''A1'' ''u1'')) h)))
              \<and> (\<forall>h. fst (click_add_to_cart shop_page h))"
    using g v sm c k t d by (simp add: p f)
  from size_required_colour_optional
         [where B = shop_page and tr = "[]" and df = ?df and ord = "ex_row ''A1'' ''u1''"
            and clock = "\<lambda>h. ''T''" and url = "''u1''" and sz = "PyStr ''M''"
            and col = "PyStr ''Rouge''" and qty = 2] hyp4
  obtain df4 where
    s4: "snd (snd (process_pending_orders shop_page (\<lambda>h. ''T'') [] (Some ?df))) = Some df4"
    and r4: "\<forall>j < length ?df. order_id (?df ! j) = order_id (ex_row ''A1'' ''u1'') \<longrightarrow>
               status (df4 ! j) = ''completed''"
    by blast
  have 4: "status (the (snd (snd (process_pending_orders shop_page (\<lambda>h. ''T'') [] (Some ?df)))) ! 0)
             = ''completed''"
    using r4 [rule_format, of 0] s4 by (simp add: f)
  show ?thesis
    using 1 2 3 4 5 6 by simp
qed

section \<open>Quantity\<close>







lemma typed_ok_event_of [simp]:
  "\<not> typed_ok (event_of r (WaitForSelector sel t))"
  "\<not> typed_ok (event_of r (Click e))"
  "\<not> typed_ok (event_of r (Fill e s))"
  "\<not> typed_ok (event_of r (Sleep t))"
  by (cases r; simp)+










section \<open>Fallback chains\<close>

lemma waited_append [simp]: "waited (a @ b) = waited a @ waited b"
  by (induction a rule: waited.induct) simp_all

lemma clicked_append [simp]: "clicked (a @ b) = clicked a @ clicked b"
  by (induction a rule: clicked.induct) simp_all

lemma waited_event_of [simp]:
  "waited (event_of r (WaitForSelector s t) # tr) = s # waited tr"
  "waited (event_of r (Click e) # tr) = waited tr"
  "waited (event_of r (GetAttribute e a) # tr) = waited tr"
  "waited (event_of r (Sleep t) # tr) = waited tr"
  by (cases r; simp)+

lemma clicked_event_of [simp]:
  "clicked (event_of r (WaitForSelector s t) # tr) = clicked tr"
  "clicked (event_of r (GetAttribute e a) # tr) = clicked tr"
  "clicked (event_of r (Sleep t) # tr) = clicked tr"
  "clicked (event_of (Inl x) (Click e) # tr) = clicked tr"
  by (cases r; simp)+



















end
